theory Spec2Isabelle
  imports Complex_Main
begin

section \<open>JavaScript Numbers\<close>

text \<open>
  A Number is an IEEE 754 binary64 value: NaN, one of the two infinities, or a finite
  value, given here by the rational it denotes. The result of an arithmetic operation
  is the exact result rounded to the nearest binary64 value, ties to the even
  significand (\<open>round64\<close>). The two zeros are one value: they add, compare, test and
  print alike in everything the servers do.
\<close>

datatype jsnum = NaN | PInf | NInf | Fin rat

fun js_neg :: "jsnum \<Rightarrow> jsnum" where
  "js_neg NaN = NaN"
| "js_neg PInf = NInf"
| "js_neg NInf = PInf"
| "js_neg (Fin a) = Fin (- a)"

definition pow2 :: "int \<Rightarrow> rat" where
  "pow2 e = (if 0 \<le> e then 2 ^ nat e else 1 / 2 ^ nat (- e))"

text \<open>The number of binary digits of a natural number.\<close>

fun bits :: "nat \<Rightarrow> nat" where
  "bits n = (if n = 0 then 0 else Suc (bits (n div 2)))"

declare bits.simps [simp del]

text \<open>For a positive \<open>x\<close>, the integer \<open>k\<close> with \<open>2^k \<le> x < 2^(k+1)\<close>.\<close>

definition floor_log2 :: "rat \<Rightarrow> int" where
  "floor_log2 x =
     (if 1 \<le> x then int (bits (nat \<lfloor>x\<rfloor>)) - 1
      else - int (bits (nat (\<lceil>1 / x\<rceil> - 1))))"

definition round_half_even :: "rat \<Rightarrow> int" where
  "round_half_even y =
     (let f = \<lfloor>y\<rfloor>; r = y - of_int f
      in if r < 1 / 2 then f
         else if 1 / 2 < r then f + 1
         else if even f then f else f + 1)"

text \<open>
  Rounding of a positive rational: a significand of 53 bits at the exponent of the
  value, of fewer bits at the least exponent \<open>-1074\<close> (subnormal values, down to
  zero), and infinity from \<open>2^1024\<close> on.
\<close>

definition round64_pos :: "rat \<Rightarrow> jsnum" where
  "round64_pos x =
     (let e = max (floor_log2 x - 52) (- 1074);
          m = round_half_even (x / pow2 e)
      in if 971 < e \<or> (e = 971 \<and> m = 2 ^ 53) then PInf
         else Fin (of_int m * pow2 e))"

definition round64 :: "rat \<Rightarrow> jsnum" where
  "round64 x =
     (if x = 0 then Fin 0
      else if 0 < x then round64_pos x
      else js_neg (round64_pos (- x)))"

text \<open>The operator \<^verbatim>\<open>+\<close> on Numbers: NaN absorbs, opposite infinities give NaN.\<close>

fun js_add :: "jsnum \<Rightarrow> jsnum \<Rightarrow> jsnum" where
  "js_add NaN _ = NaN"
| "js_add _ NaN = NaN"
| "js_add PInf NInf = NaN"
| "js_add NInf PInf = NaN"
| "js_add PInf _ = PInf"
| "js_add _ PInf = PInf"
| "js_add NInf _ = NInf"
| "js_add _ NInf = NInf"
| "js_add (Fin a) (Fin b) = round64 (a + b)"

definition js_sub :: "jsnum \<Rightarrow> jsnum \<Rightarrow> jsnum" where
  "js_sub a b = js_add a (js_neg b)"

text \<open>Truthiness, as tested by \<^verbatim>\<open>!x\<close> and \<^verbatim>\<open>x || y\<close>: 0 and NaN are falsy Numbers.\<close>

fun truthy_num :: "jsnum \<Rightarrow> bool" where
  "truthy_num NaN = False"
| "truthy_num (Fin a) = (a \<noteq> 0)"
| "truthy_num _ = True"

text \<open>
  \<^verbatim>\<open>n + 1\<close> on a Number that is a natural number. A finite Number plus 1 is finite,
  so the other cases do not arise for a value that a document can hold.
\<close>

definition js_succ :: "nat \<Rightarrow> nat" where
  "js_succ n = (case js_add (Fin (of_nat n)) (Fin 1) of Fin x \<Rightarrow> nat \<lfloor>x\<rfloor> | _ \<Rightarrow> n)"

section \<open>JSON values\<close>

text \<open>
  A property of a request body is any value that \<^verbatim>\<open>JSON.parse\<close> produces, or
  \<^verbatim>\<open>undefined\<close> when the body does not have it. A string is the list of its bytes in
  UTF-8; an object is the list of its properties, one entry for each key.
\<close>

datatype jsval =
    JUndefined
  | JNull
  | JBool bool
  | JNum jsnum
  | JStr string
  | JArr "jsval list"
  | JObj "(string \<times> jsval) list"

fun truthy :: "jsval \<Rightarrow> bool" where
  "truthy JUndefined = False"
| "truthy JNull = False"
| "truthy (JBool b) = b"
| "truthy (JNum n) = truthy_num n"
| "truthy (JStr s) = (s \<noteq> [])"
| "truthy (JArr _) = True"
| "truthy (JObj _) = True"

definition falsy :: "jsval \<Rightarrow> bool" where
  "falsy v = (\<not> truthy v)"

text \<open>\<^verbatim>\<open>x || d\<close>.\<close>

definition or_else :: "jsval \<Rightarrow> jsval \<Rightarrow> jsval" where
  "or_else x d = (if truthy x then x else d)"

fun typeof :: "jsval \<Rightarrow> string" where
  "typeof JUndefined = ''undefined''"
| "typeof JNull = ''object''"
| "typeof (JBool _) = ''boolean''"
| "typeof (JNum _) = ''number''"
| "typeof (JStr _) = ''string''"
| "typeof (JArr _) = ''object''"
| "typeof (JObj _) = ''object''"

text \<open>
  Username and email of the two authentication routes are modelled for string values:
  \<open>Some s\<close>, or \<open>None\<close> when absent or null. The empty string is falsy.
\<close>

fun truthy_str :: "string option \<Rightarrow> bool" where
  "truthy_str None = False"
| "truthy_str (Some s) = (s \<noteq> [])"

definition falsy_str :: "string option \<Rightarrow> bool" where
  "falsy_str x = (\<not> truthy_str x)"

subsection \<open>The text of a value\<close>

definition digit_char :: "nat \<Rightarrow> char" where
  "digit_char d = ''0123456789'' ! d"

fun nat_text :: "nat \<Rightarrow> string" where
  "nat_text n = (if n < 10 then [digit_char n] else nat_text (n div 10) @ [digit_char (n mod 10)])"

declare nat_text.simps [simp del]

text \<open>
  \<^verbatim>\<open>Number.prototype.toString\<close>. A whole number below \<open>10^21\<close> in magnitude is
  printed with all its digits. The text of any other finite Number, its shortest
  decimal that reads back as the same Number, is taken from the argument \<open>ft\<close>.
\<close>

definition number_text :: "(rat \<Rightarrow> string) \<Rightarrow> jsnum \<Rightarrow> string" where
  "number_text ft n =
     (case n of
        NaN \<Rightarrow> ''NaN''
      | PInf \<Rightarrow> ''Infinity''
      | NInf \<Rightarrow> ''-Infinity''
      | Fin r \<Rightarrow>
          if r = of_int \<lfloor>r\<rfloor> \<and> \<bar>r\<bar> < 10 ^ 21 then
            (if r < 0 then ''-'' @ nat_text (nat (- \<lfloor>r\<rfloor>)) else nat_text (nat \<lfloor>r\<rfloor>))
          else ft r)"

text \<open>
  The abstract operation ToString, \<open>None\<close> for the TypeError it throws. An array is
  the texts of its elements joined by commas, with nothing for null; an object parsed
  from JSON is \<^verbatim>\<open>[object Object]\<close>, unless it has a property \<^verbatim>\<open>toString\<close> of its own,
  which is not callable and leaves no way to a primitive value.
\<close>

fun js_toString :: "(rat \<Rightarrow> string) \<Rightarrow> jsval \<Rightarrow> string option"
  and js_join :: "(rat \<Rightarrow> string) \<Rightarrow> jsval list \<Rightarrow> string option" where
  "js_toString ft JUndefined = Some ''undefined''"
| "js_toString ft JNull = Some ''null''"
| "js_toString ft (JBool b) = Some (if b then ''true'' else ''false'')"
| "js_toString ft (JNum n) = Some (number_text ft n)"
| "js_toString ft (JStr s) = Some s"
| "js_toString ft (JArr xs) = js_join ft xs"
| "js_toString ft (JObj kvs) =
     (if map_of kvs ''toString'' = None then Some ''[object Object]'' else None)"
| "js_join ft [] = Some []"
| "js_join ft (x # xs) =
     (case (if x = JNull \<or> x = JUndefined then Some [] else js_toString ft x) of
        None \<Rightarrow> None
      | Some a \<Rightarrow>
          if xs = [] then Some a
          else (case js_join ft xs of None \<Rightarrow> None | Some b \<Rightarrow> Some (a @ '','' @ b)))"

subsection \<open>parseFloat\<close>

text \<open>
  The length in bytes of the white space or line terminator at the head of a string,
  0 when there is none: TAB, LF, VT, FF, CR, SP, and in UTF-8 U+00A0, U+1680,
  U+2000 to U+200A, U+2028, U+2029, U+202F, U+205F, U+3000 and U+FEFF.
\<close>

definition ws_len :: "string \<Rightarrow> nat" where
  "ws_len s =
     (if s = [] then 0
      else if hd s \<in> set [CHR 0x09, CHR 0x0A, CHR 0x0B, CHR 0x0C, CHR 0x0D, CHR 0x20] then 1
      else if take 2 s = [CHR 0xC2, CHR 0xA0] then 2
      else if take 3 s = [CHR 0xE1, CHR 0x9A, CHR 0x80] then 3
      else if take 2 s = [CHR 0xE2, CHR 0x80] \<and> 3 \<le> length s
              \<and> (of_char (s ! 2) :: nat) \<in> set [0x80, 0x81, 0x82, 0x83, 0x84, 0x85, 0x86, 0x87, 0x88,
                                               0x89, 0x8A, 0xA8, 0xA9, 0xAF] then 3
      else if take 3 s = [CHR 0xE2, CHR 0x81, CHR 0x9F] then 3
      else if take 3 s = [CHR 0xE3, CHR 0x80, CHR 0x80] then 3
      else if take 3 s = [CHR 0xEF, CHR 0xBB, CHR 0xBF] then 3
      else 0)"

function skip_ws :: "string \<Rightarrow> string" where
  "skip_ws s = (if ws_len s = 0 then s else skip_ws (drop (ws_len s) s))"
  by pat_completeness auto
termination
  by (relation "measure length") (auto simp: ws_len_def split: if_splits)

declare skip_ws.simps [simp del]

definition is_digit :: "char \<Rightarrow> bool" where
  "is_digit c = (c \<in> set ''0123456789'')"

definition digit_val :: "char \<Rightarrow> nat" where
  "digit_val c = of_char c - 48"

definition digits_val :: "string \<Rightarrow> nat" where
  "digits_val ds = foldl (\<lambda>n c. 10 * n + digit_val c) 0 ds"

text \<open>The exponent part after the mantissa: \<^verbatim>\<open>e\<close> or \<^verbatim>\<open>E\<close>, a sign, at least one digit.\<close>

definition parse_exponent :: "string \<Rightarrow> int" where
  "parse_exponent s =
     (case s of
        [] \<Rightarrow> 0
      | c # r \<Rightarrow>
          if c = CHR ''e'' \<or> c = CHR ''E'' then
            (case r of
               [] \<Rightarrow> 0
             | d # r' \<Rightarrow>
                 if d = CHR ''-'' then
                   (let ds = takeWhile is_digit r' in if ds = [] then 0 else - int (digits_val ds))
                 else if d = CHR ''+'' then
                   (let ds = takeWhile is_digit r' in if ds = [] then 0 else int (digits_val ds))
                 else
                   (let ds = takeWhile is_digit r in if ds = [] then 0 else int (digits_val ds)))
          else 0)"

definition pow10 :: "int \<Rightarrow> rat" where
  "pow10 e = (if 0 \<le> e then 10 ^ nat e else 1 / 10 ^ nat (- e))"

text \<open>
  The longest prefix that is a decimal literal without sign: \<^verbatim>\<open>Infinity\<close>, or digits
  with an optional fraction and an optional exponent. Its value is rounded to a Number.
\<close>

definition parse_unsigned :: "string \<Rightarrow> jsnum" where
  "parse_unsigned s =
     (if take 8 s = ''Infinity'' then PInf
      else
        let ip = takeWhile is_digit s;
            r1 = dropWhile is_digit s;
            fp = (case r1 of [] \<Rightarrow> [] | c # r \<Rightarrow> if c = CHR ''.'' then takeWhile is_digit r else []);
            r2 = (case r1 of [] \<Rightarrow> [] | c # r \<Rightarrow> if c = CHR ''.'' then dropWhile is_digit r else r1)
        in if ip = [] \<and> fp = [] then NaN
           else round64 ((of_nat (digits_val ip) + of_nat (digits_val fp) / 10 ^ length fp)
                         * pow10 (parse_exponent r2)))"

text \<open>\<^verbatim>\<open>parseFloat\<close> on a string: leading white space is skipped, then a sign is read.\<close>

definition parseFloat_str :: "string \<Rightarrow> jsnum" where
  "parseFloat_str s =
     (case skip_ws s of
        [] \<Rightarrow> NaN
      | c # r \<Rightarrow>
          if c = CHR ''-'' then js_neg (parse_unsigned r)
          else if c = CHR ''+'' then parse_unsigned r
          else parse_unsigned (c # r))"

text \<open>
  \<^verbatim>\<open>parseFloat\<close> on any value: the value is converted to its text first, which can
  throw (\<open>None\<close>). The text of a Number reads back as that Number.
\<close>

definition parseFloat :: "(rat \<Rightarrow> string) \<Rightarrow> jsval \<Rightarrow> jsnum option" where
  "parseFloat ft v =
     (case v of
        JNum n \<Rightarrow> Some n
      | _ \<Rightarrow> (case js_toString ft v of None \<Rightarrow> None | Some s \<Rightarrow> Some (parseFloat_str s)))"

subsection \<open>The cast of a schema path of type String\<close>

text \<open>
  A string is kept, null and undefined stay without value, a number or boolean becomes
  its text, an object with a non-empty string as \<^verbatim>\<open>_id\<close> becomes that string, and an
  array or any other object fails the cast.
\<close>

datatype cast = CastError | NoValue | Cast string

fun castString :: "(rat \<Rightarrow> string) \<Rightarrow> jsval \<Rightarrow> cast" where
  "castString ft JUndefined = NoValue"
| "castString ft JNull = NoValue"
| "castString ft (JBool b) = Cast (if b then ''true'' else ''false'')"
| "castString ft (JNum n) = Cast (number_text ft n)"
| "castString ft (JStr s) = Cast s"
| "castString ft (JArr xs) = CastError"
| "castString ft (JObj kvs) =
     (case map_of kvs ''_id'' of
        Some (JStr i) \<Rightarrow> if i \<noteq> [] then Cast i else CastError
      | _ \<Rightarrow> CastError)"

text \<open>The string a cast has produced; the handlers pass no null or undefined to it.\<close>

fun cast_text :: "cast \<Rightarrow> string" where
  "cast_text (Cast s) = s"
| "cast_text _ = []"

section \<open>Documents and schemas\<close>

text \<open>
  \<^verbatim>\<open>UserSchema\<close>. The \<^verbatim>\<open>_id\<close> of a document is generated fresh by the driver;
  documents are never deleted, so the model numbers them in insertion order.
\<close>

record user =
  user_id :: nat
  username :: string
  email :: string
  password :: string
  role :: string
  walletAddress :: string
  createdAt :: nat

text \<open>
  \<^verbatim>\<open>TransactionSchema\<close>. A stored document has passed the schema's casts and
  validators, so its \<^verbatim>\<open>type\<close> and \<^verbatim>\<open>category\<close> are members of the two \<^verbatim>\<open>enum\<close>
  lists and its \<^verbatim>\<open>amount\<close> is a Number other than NaN. Identifiers are the natural
  numbers among the Numbers.
\<close>

datatype direction = Income | Expense

datatype category = Salary | Rent | Equipment | Utilities | Marketing | Other

record transaction =
  tx_oid :: nat
  transactionId :: nat
  description :: string
  amount :: jsnum
  type :: direction
  category :: category
  sender :: string
  receiver :: string
  timestamp :: nat
  blockchainHash :: string
  status :: string
  createdBy :: nat

definition type_enum :: "string \<Rightarrow> direction option" where
  "type_enum s =
     (if s = ''income'' then Some Income
      else if s = ''expense'' then Some Expense
      else None)"

definition category_enum :: "string \<Rightarrow> category option" where
  "category_enum s =
     (if s = ''salary'' then Some Salary
      else if s = ''rent'' then Some Rent
      else if s = ''equipment'' then Some Equipment
      else if s = ''utilities'' then Some Utilities
      else if s = ''marketing'' then Some Marketing
      else if s = ''other'' then Some Other
      else None)"

text \<open>The argument of \<^verbatim>\<open>new Transaction({...})\<close>, before casting and validation.\<close>

record tx_fields =
  new_transactionId :: nat
  new_description :: jsval
  new_amount :: jsnum
  new_type :: jsval
  new_category :: jsval
  new_sender :: jsval
  new_receiver :: jsval
  new_blockchainHash :: string
  new_createdBy :: nat

text \<open>
  What a request meets outside the program: whether the connection is up
  (\<^verbatim>\<open>mongoose.connection.readyState === 1\<close>), whether the store accepts a write, the
  clock, the text drawn from \<^verbatim>\<open>Math.random\<close>, the two \<^verbatim>\<open>bcrypt\<close> operations on
  strings, the message of the error that \<^verbatim>\<open>jwt.sign\<close> throws when the secret or the
  expiry is not configured (\<open>None\<close> when it signs), and the text of the Numbers that
  are not whole.
\<close>

record env =
  dbConnected :: bool
  writeOk :: bool
  now :: nat
  randomHash :: string
  bcrypt_hash :: "string \<Rightarrow> string"
  bcrypt_compare :: "string \<Rightarrow> string \<Rightarrow> bool"
  jwt_error :: "string option"
  fraction_text :: "rat \<Rightarrow> string"

text \<open>
  Errors thrown by the store: by \<^verbatim>\<open>save()\<close> (the list names the paths that failed
  the cast or the validation), or by a query issued without a connection.
\<close>

datatype store_error =
  ValidationFailed "string list" | DuplicateKey string | WriteFailed | BufferingTimedOut

text \<open>The process state: the two collections and the module-level set of wallets.\<close>

record state =
  users :: "user list"
  transactions :: "transaction list"
  assignedWallets :: "string set"

section \<open>Wallet pool\<close>

definition AVAILABLE_WALLETS :: "string list" where
  "AVAILABLE_WALLETS =
     [''0x90F8bf6A479f320ead074411a4B0e7944Ea8c9C1'',
      ''0xFFcf8FDEE72ac11b5c542428B35EEF5769C409f0'',
      ''0x22d491Bde2303f2f43325b2108D26f1eAbA1e32b'',
      ''0xE11BA2b4D45Eaed5996Cd0823791E0C93114882d'',
      ''0xd03ea8624C8C5987235048901fB614fDcA89b117'',
      ''0x95cED938F7991cd0dFcb48F0a06a40FA1aF46EBC'',
      ''0x3E5e9111Ae8eB78Fe1CC3bb8915d5D461F3Ef9A9'',
      ''0x28a8746e75304c0780E011BEd21C72cD78cd535E'',
      ''0xACa94ef8bD5ffEE41947b4585a84BdA5a3d3DA6E'',
      ''0x1dF62f291b2E969fB0849d99D9Ce41e2F137006e'']"

text \<open>
  \<^verbatim>\<open>getAvailableWallet\<close>, with the pool it scans as an argument. The result is the
  wallet and the updated set, or the message of the \<^verbatim>\<open>Error\<close> thrown.
\<close>

fun getAvailableWalletFrom :: "string list \<Rightarrow> string set \<Rightarrow> string + (string \<times> string set)" where
  "getAvailableWalletFrom [] assigned = Inl ''No more wallets available''"
| "getAvailableWalletFrom (wallet # rest) assigned =
     (if wallet \<notin> assigned then Inr (wallet, insert wallet assigned)
      else getAvailableWalletFrom rest assigned)"

definition getAvailableWallet :: "string set \<Rightarrow> string + (string \<times> string set)" where
  "getAvailableWallet assigned = getAvailableWalletFrom AVAILABLE_WALLETS assigned"

section \<open>Replies\<close>

text \<open>The objects built by the dashboard route.\<close>

record bucket =
  income :: jsnum
  expense :: jsnum
  total :: jsnum

record summary =
  totalIncome :: jsnum
  totalExpenses :: jsnum
  balance :: jsnum
  transactionCount :: nat
  byCategory :: "(category \<times> bucket) list"

text \<open>
  A token is the payload signed by \<^verbatim>\<open>jwt.sign\<close>: user id, username, role and, from
  registration only, the wallet address.
\<close>

datatype token = Token nat string string "string option"

text \<open>The \<^verbatim>\<open>error\<close> of a reply: a text, or the message of an error of the store.\<close>

datatype message = Text string | StoreMessage store_error

datatype reply =
    Fail nat message
  | Registered token user
  | LoggedIn token user
  | TransactionAdded transaction
  | Dashboard summary "transaction list"

fun status_code :: "reply \<Rightarrow> nat" where
  "status_code (Fail n _) = n"
| "status_code (Registered _ _) = 201"
| "status_code (LoggedIn _ _) = 200"
| "status_code (TransactionAdded _) = 201"
| "status_code (Dashboard _ _) = 200"

fun is_failure :: "reply \<Rightarrow> bool" where
  "is_failure (Fail _ _) = True"
| "is_failure _ = False"

section \<open>Registration and login\<close>

record register_body =
  reg_username :: "string option"
  reg_email :: "string option"
  reg_password :: jsval

text \<open>
  \<^verbatim>\<open>user.save()\<close>: the write can fail, and the unique indexes on \<^verbatim>\<open>username\<close> and
  \<^verbatim>\<open>email\<close> reject a duplicate.
\<close>

definition saveUser :: "env \<Rightarrow> user list \<Rightarrow> user \<Rightarrow> store_error + user list" where
  "saveUser e us u =
     (if \<not> writeOk e then Inl WriteFailed
      else if list_ex (\<lambda>v. username v = username u) us then Inl (DuplicateKey ''username'')
      else if list_ex (\<lambda>v. email v = email u) us then Inl (DuplicateKey ''email'')
      else Inr (us @ [u]))"

text \<open>
  \<^verbatim>\<open>POST /api/auth/register\<close>. Everything from the wallet draw on runs in one
  \<^verbatim>\<open>try\<close> block without any undoing: \<^verbatim>\<open>bcrypt.hash\<close> rejects a password that is
  not a string, \<^verbatim>\<open>user.save()\<close> can fail, and \<^verbatim>\<open>jwt.sign\<close> can throw after the user
  is stored.
\<close>

definition register :: "string list \<Rightarrow> env \<Rightarrow> state \<Rightarrow> register_body \<Rightarrow> state \<times> reply" where
  "register pool e s b =
     (if falsy_str (reg_username b) \<or> falsy_str (reg_email b) \<or> falsy (reg_password b) then
        (s, Fail 400 (Text ''Username, email, and password are required''))
      else if \<not> dbConnected e then
        (s, Fail 503 (Text ''Database not available. Please try again later.''))
      else
        case find (\<lambda>u. email u = the (reg_email b) \<or> username u = the (reg_username b)) (users s) of
          Some existingUser \<Rightarrow>
            (s, Fail 400 (Text ''User with this email or username already exists''))
        | None \<Rightarrow>
            (case getAvailableWalletFrom pool (assignedWallets s) of
               Inl m \<Rightarrow> (s, Fail 500 (Text m))
             | Inr (wallet, assigned) \<Rightarrow>
                 let s1 = s\<lparr>assignedWallets := assigned\<rparr>
                 in (case reg_password b of
                       JStr pw \<Rightarrow>
                         (let u = \<lparr>user_id = length (users s),
                                   username = the (reg_username b),
                                   email = the (reg_email b),
                                   password = bcrypt_hash e pw,
                                   role = ''user'',
                                   walletAddress = wallet,
                                   createdAt = now e\<rparr>
                          in (case saveUser e (users s) u of
                                Inl err \<Rightarrow> (s1, Fail 500 (StoreMessage err))
                              | Inr us \<Rightarrow>
                                  (case jwt_error e of
                                     Some m \<Rightarrow> (s1\<lparr>users := us\<rparr>, Fail 500 (Text m))
                                   | None \<Rightarrow>
                                       (s1\<lparr>users := us\<rparr>,
                                        Registered
                                          (Token (user_id u) (username u) (role u)
                                             (Some (walletAddress u))) u))))
                     | other \<Rightarrow>
                         (s1, Fail 500 (Text (''Illegal arguments: '' @ typeof other @ '', number''))))))"

record login_body =
  login_email :: "string option"
  login_password :: jsval

text \<open>
  \<^verbatim>\<open>POST /api/auth/login\<close>. \<^verbatim>\<open>bcrypt.compare\<close> rejects a password that is not a
  string, and the \<^verbatim>\<open>catch\<close> block answers with its message.
\<close>

definition login :: "env \<Rightarrow> state \<Rightarrow> login_body \<Rightarrow> state \<times> reply" where
  "login e s b =
     (if falsy_str (login_email b) \<or> falsy (login_password b) then
        (s, Fail 400 (Text ''Email and password are required''))
      else if \<not> dbConnected e then
        (s, Fail 503 (Text ''Database not available. Please try again later.''))
      else
        case find (\<lambda>u. email u = the (login_email b)) (users s) of
          None \<Rightarrow> (s, Fail 400 (Text ''Invalid email or password''))
        | Some u \<Rightarrow>
            (case login_password b of
               JStr pw \<Rightarrow>
                 if \<not> bcrypt_compare e pw (password u) then
                   (s, Fail 400 (Text ''Invalid email or password''))
                 else
                   (case jwt_error e of
                      Some m \<Rightarrow> (s, Fail 500 (Text m))
                    | None \<Rightarrow> (s, LoggedIn (Token (user_id u) (username u) (role u) None) u))
             | other \<Rightarrow>
                 (s, Fail 500 (Text (''Illegal arguments: '' @ typeof other @ '', string'')))))"

section \<open>Transactions\<close>

record tx_body =
  body_description :: jsval
  body_amount :: jsval
  body_type :: jsval
  body_category :: jsval
  body_receiver :: jsval

definition findById :: "user list \<Rightarrow> nat \<Rightarrow> user option" where
  "findById us i = find (\<lambda>u. user_id u = i) us"

text \<open>
  \<^verbatim>\<open>Transaction.findOne().sort({ transactionId: -1 })\<close>: the document with the
  highest identifier, the first such one in the collection's order; none when the
  collection is empty.
\<close>

fun findOneSortDesc :: "transaction list \<Rightarrow> transaction option" where
  "findOneSortDesc [] = None"
| "findOneSortDesc (t # ts) =
     (case findOneSortDesc ts of
        None \<Rightarrow> Some t
      | Some m \<Rightarrow> if transactionId m \<le> transactionId t then Some t else Some m)"

definition nextId :: "transaction list \<Rightarrow> nat" where
  "nextId txs =
     (case findOneSortDesc txs of
        Some lastTransaction \<Rightarrow> js_succ (transactionId lastTransaction)
      | None \<Rightarrow> 1)"

text \<open>
  Casting and validation of a new document, path by path: a value that fails the cast
  to String, a NaN amount, a type or category outside its \<^verbatim>\<open>enum\<close>.
\<close>

definition enum_invalid :: "(string \<Rightarrow> 'a option) \<Rightarrow> cast \<Rightarrow> bool" where
  "enum_invalid en c =
     (case c of CastError \<Rightarrow> True | NoValue \<Rightarrow> False | Cast s \<Rightarrow> en s = None)"

definition invalid_paths :: "(rat \<Rightarrow> string) \<Rightarrow> tx_fields \<Rightarrow> string list" where
  "invalid_paths ft f =
     (if castString ft (new_description f) = CastError then [''description''] else [])
     @ (if new_amount f = NaN then [''amount''] else [])
     @ (if enum_invalid type_enum (castString ft (new_type f)) then [''type''] else [])
     @ (if enum_invalid category_enum (castString ft (new_category f)) then [''category''] else [])
     @ (if castString ft (new_sender f) = CastError then [''sender''] else [])
     @ (if castString ft (new_receiver f) = CastError then [''receiver''] else [])"

text \<open>
  \<^verbatim>\<open>transaction.save()\<close>: validation, then the write, which the unique index on
  \<^verbatim>\<open>transactionId\<close> rejects for an identifier already present. The defaults of the
  schema fill \<^verbatim>\<open>timestamp\<close> and \<^verbatim>\<open>status\<close>.
\<close>

definition saveTransaction :: "env \<Rightarrow> transaction list \<Rightarrow> tx_fields \<Rightarrow> store_error + transaction" where
  "saveTransaction e txs f =
     (if invalid_paths (fraction_text e) f \<noteq> [] then
        Inl (ValidationFailed (invalid_paths (fraction_text e) f))
      else if \<not> writeOk e then Inl WriteFailed
      else if list_ex (\<lambda>t. transactionId t = new_transactionId f) txs then
        Inl (DuplicateKey ''transactionId'')
      else
        Inr \<lparr>tx_oid = length txs,
             transactionId = new_transactionId f,
             description = cast_text (castString (fraction_text e) (new_description f)),
             amount = new_amount f,
             type = the (type_enum (cast_text (castString (fraction_text e) (new_type f)))),
             category = the (category_enum (cast_text (castString (fraction_text e) (new_category f)))),
             sender = cast_text (castString (fraction_text e) (new_sender f)),
             receiver = cast_text (castString (fraction_text e) (new_receiver f)),
             timestamp = now e,
             blockchainHash = new_blockchainHash f,
             status = ''completed'',
             createdBy = new_createdBy f\<rparr>)"

text \<open>
  The handler from the user lookup on: identifier, attribution, construction and
  save. The test \<^verbatim>\<open>type === 'income'\<close> is on the value of the body; the schema casts
  that value on its own. Both servers that look the identifier up share this part.
\<close>

definition addTransaction :: "env \<Rightarrow> state \<Rightarrow> nat \<Rightarrow> tx_body \<Rightarrow> state \<times> reply" where
  "addTransaction e s userId b =
     (case findById (users s) userId of
        None \<Rightarrow> (s, Fail 404 (Text ''User not found''))
      | Some u \<Rightarrow>
          let newId = nextId (transactions s);
              sender' =
                (if body_type b = JStr ''income'' then or_else (body_receiver b) (JStr ''external_sender'')
                 else JStr (walletAddress u));
              transactionReceiver =
                (if body_type b = JStr ''income'' then JStr (walletAddress u)
                 else or_else (body_receiver b) (JStr ''external_receiver''))
          in (case parseFloat (fraction_text e) (body_amount b) of
                None \<Rightarrow> (s, Fail 500 (Text ''Cannot convert object to primitive value''))
              | Some amt \<Rightarrow>
                  (case saveTransaction e (transactions s)
                          \<lparr>new_transactionId = newId,
                           new_description = body_description b,
                           new_amount = amt,
                           new_type = body_type b,
                           new_category = or_else (body_category b) (JStr ''other''),
                           new_sender = sender',
                           new_receiver = transactionReceiver,
                           new_blockchainHash = ''0x'' @ randomHash e,
                           new_createdBy = userId\<rparr> of
                     Inl err \<Rightarrow> (s, Fail 500 (StoreMessage err))
                   | Inr t \<Rightarrow> (s\<lparr>transactions := transactions s @ [t]\<rparr>, TransactionAdded t))))"

text \<open>\<^verbatim>\<open>POST /api/transactions\<close> of the server with the wallet pool.\<close>

definition postTransaction :: "env \<Rightarrow> state \<Rightarrow> nat \<Rightarrow> tx_body \<Rightarrow> state \<times> reply" where
  "postTransaction e s userId b =
     (if falsy (body_description b) \<or> falsy (body_amount b) \<or> falsy (body_type b) then
        (s, Fail 400 (Text ''Description, amount, and type are required''))
      else if \<not> dbConnected e then
        (s, Fail 503 (Text ''Database not available''))
      else addTransaction e s userId b)"

text \<open>
  The same route in the earlier server, which has no connection check: without a
  connection the first query throws and the \<^verbatim>\<open>catch\<close> block answers.
\<close>

definition postTransaction_v1 :: "env \<Rightarrow> state \<Rightarrow> nat \<Rightarrow> tx_body \<Rightarrow> state \<times> reply" where
  "postTransaction_v1 e s userId b =
     (if falsy (body_description b) \<or> falsy (body_amount b) \<or> falsy (body_type b) then
        (s, Fail 400 (Text ''Description, amount, and type are required''))
      else if \<not> dbConnected e then
        (s, Fail 500 (StoreMessage BufferingTimedOut))
      else addTransaction e s userId b)"

section \<open>Dashboard summary\<close>

text \<open>\<^verbatim>\<open>xs.reduce((sum, t) => sum + t.amount, 0)\<close>.\<close>

definition sum_amounts :: "transaction list \<Rightarrow> jsnum" where
  "sum_amounts txs = foldl (\<lambda>sum t. js_add sum (amount t)) (Fin 0) txs"

text \<open>The two compound assignments on the bucket of a transaction's category.\<close>

definition add_to_bucket :: "transaction \<Rightarrow> bucket \<Rightarrow> bucket" where
  "add_to_bucket t b =
     (case type t of
        Income \<Rightarrow> b\<lparr>income := js_add (income b) (amount t), total := js_add (total b) (amount t)\<rparr>
      | Expense \<Rightarrow> b\<lparr>expense := js_add (expense b) (amount t), total := js_add (total b) (amount t)\<rparr>)"

text \<open>
  The accumulator object, as the list of its keys in insertion order. A key that is
  absent gets a bucket of zeros first.
\<close>

fun update_bucket :: "'k \<Rightarrow> transaction \<Rightarrow> ('k \<times> bucket) list \<Rightarrow> ('k \<times> bucket) list" where
  "update_bucket c t [] = [(c, add_to_bucket t \<lparr>income = Fin 0, expense = Fin 0, total = Fin 0\<rparr>)]"
| "update_bucket c t ((k, b) # acc) =
     (if k = c then (k, add_to_bucket t b) # acc else (k, b) # update_bucket c t acc)"

definition categoryData :: "transaction list \<Rightarrow> (category \<times> bucket) list" where
  "categoryData txs = foldl (\<lambda>acc t. update_bucket (category t) t acc) [] txs"

definition summarize :: "transaction list \<Rightarrow> summary" where
  "summarize txs =
     (let ti = sum_amounts (filter (\<lambda>t. type t = Income) txs);
          te = sum_amounts (filter (\<lambda>t. type t = Expense) txs)
      in \<lparr>totalIncome = ti,
          totalExpenses = te,
          balance = js_sub ti te,
          transactionCount = length txs,
          byCategory = categoryData txs\<rparr>)"

text \<open>
  The earlier server adds a breakdown by month, keyed by the first seven characters of
  the timestamp's ISO text; the function from a timestamp to that key is an argument.
\<close>

record summary_v1 = summary +
  byMonth :: "(string \<times> bucket) list"

definition monthlyData :: "(nat \<Rightarrow> string) \<Rightarrow> transaction list \<Rightarrow> (string \<times> bucket) list" where
  "monthlyData month txs = foldl (\<lambda>acc t. update_bucket (month (timestamp t)) t acc) [] txs"

definition summarize_v1 :: "(nat \<Rightarrow> string) \<Rightarrow> transaction list \<Rightarrow> summary_v1" where
  "summarize_v1 month txs =
     (let ti = sum_amounts (filter (\<lambda>t. type t = Income) txs);
          te = sum_amounts (filter (\<lambda>t. type t = Expense) txs)
      in \<lparr>totalIncome = ti,
          totalExpenses = te,
          balance = js_sub ti te,
          transactionCount = length txs,
          byCategory = categoryData txs,
          byMonth = monthlyData month txs\<rparr>)"

text \<open>The sum of the \<^verbatim>\<open>total\<close> of every bucket, in the order of the keys.\<close>

definition sum_totals :: "('k \<times> bucket) list \<Rightarrow> jsnum" where
  "sum_totals acc = foldl (\<lambda>sum kb. js_add sum (total (snd kb))) (Fin 0) acc"

text \<open>
  Amounts for which every addition above is exact: whole numbers whose absolute values
  add up to \<open>2^53\<close> at most.
\<close>

fun whole :: "jsnum \<Rightarrow> bool" where
  "whole (Fin r) = (r = of_int \<lfloor>r\<rfloor>)"
| "whole _ = False"

fun int_of :: "jsnum \<Rightarrow> int" where
  "int_of (Fin r) = \<lfloor>r\<rfloor>"
| "int_of _ = 0"

definition exact_amounts :: "transaction list \<Rightarrow> bool" where
  "exact_amounts txs =
     (list_all (\<lambda>t. whole (amount t)) txs
      \<and> sum_list (map (\<lambda>t. \<bar>int_of (amount t)\<bar>) txs) \<le> 2 ^ 53)"

text \<open>\<^verbatim>\<open>GET /api/dashboard/summary\<close>.\<close>

definition getDashboardSummary :: "env \<Rightarrow> state \<Rightarrow> nat \<Rightarrow> state \<times> reply" where
  "getDashboardSummary e s userId =
     (if \<not> dbConnected e then (s, Fail 503 (Text ''Database not available''))
      else
        let txs = filter (\<lambda>t. createdBy t = userId) (transactions s)
        in (s, Dashboard (summarize txs) (take 5 txs)))"

section \<open>The server as a state machine\<close>

datatype request =
    PostRegister register_body
  | PostLogin login_body
  | PostTransaction nat tx_body
  | GetDashboardSummary nat

fun handle :: "string list \<Rightarrow> env \<Rightarrow> state \<Rightarrow> request \<Rightarrow> state \<times> reply" where
  "handle pool e s (PostRegister b) = register pool e s b"
| "handle pool e s (PostLogin b) = login e s b"
| "handle pool e s (PostTransaction userId b) = postTransaction e s userId b"
| "handle pool e s (GetDashboardSummary userId) = getDashboardSummary e s userId"

text \<open>The server as it runs, on the pool of the source.\<close>

definition server :: "env \<Rightarrow> state \<Rightarrow> request \<Rightarrow> state \<times> reply" where
  "server = handle AVAILABLE_WALLETS"

text \<open>Requests served one after the other; the replies are kept in order.\<close>

fun run :: "string list \<Rightarrow> state \<Rightarrow> (env \<times> request) list \<Rightarrow> state \<times> reply list" where
  "run pool s [] = (s, [])"
| "run pool s ((e, r) # rest) =
     (case handle pool e s r of
        (s1, rep) \<Rightarrow> (case run pool s1 rest of (s2, reps) \<Rightarrow> (s2, rep # reps)))"

text \<open>The same for a sequence of submissions to the earlier server's route.\<close>

fun run_v1 :: "state \<Rightarrow> (env \<times> nat \<times> tx_body) list \<Rightarrow> state \<times> reply list" where
  "run_v1 s [] = (s, [])"
| "run_v1 s ((e, userId, b) # rest) =
     (case postTransaction_v1 e s userId b of
        (s1, rep) \<Rightarrow> (case run_v1 s1 rest of (s2, reps) \<Rightarrow> (s2, rep # reps)))"

text \<open>The identifiers of the transactions a list of replies reports as committed.\<close>

fun committed_ids :: "reply list \<Rightarrow> nat list" where
  "committed_ids [] = []"
| "committed_ids (TransactionAdded t # reps) = transactionId t # committed_ids reps"
| "committed_ids (_ # reps) = committed_ids reps"

text \<open>The users a list of replies reports as registered.\<close>

fun registered :: "reply list \<Rightarrow> user list" where
  "registered [] = []"
| "registered (Registered tok u # reps) = u # registered reps"
| "registered (_ # reps) = registered reps"

text \<open>The identifiers of a collection are 1, 2, 3, ... in insertion order.\<close>

definition sequential :: "transaction list \<Rightarrow> bool" where
  "sequential txs = (map transactionId txs = [1..<Suc (length txs)])"

fun is_registration :: "request \<Rightarrow> bool" where
  "is_registration (PostRegister _) = True"
| "is_registration _ = False"

text \<open>
  A registration that one of the checks before the hashing rejects: a missing field,
  no connection, an existing user, or no wallet left in the pool.
\<close>

definition rejected_before_draw :: "string list \<Rightarrow> env \<Rightarrow> state \<Rightarrow> register_body \<Rightarrow> bool" where
  "rejected_before_draw pool e s b =
     (falsy_str (reg_username b) \<or> falsy_str (reg_email b) \<or> falsy (reg_password b)
      \<or> \<not> dbConnected e
      \<or> find (\<lambda>u. email u = the (reg_email b) \<or> username u = the (reg_username b)) (users s) \<noteq> None
      \<or> set pool \<subseteq> assignedWallets s)"


section \<open>The servers that do not look the identifier up\<close>

text \<open>
  \<^verbatim>\<open>POST /api/transactions\<close> of \<^verbatim>\<open>server-with-auth.js\<close>. It checks nothing itself, so
  description, type and receiver of a stored document can be absent; the identifier is
  \<^verbatim>\<open>Date.now()\<close> and the schema, which has the same paths to cast and to validate,
  has no unique index.
\<close>

fun cast_option :: "cast \<Rightarrow> string option" where
  "cast_option (Cast s) = Some s"
| "cast_option _ = None"

record auth_transaction =
  a_transactionId :: nat
  a_description :: "string option"
  a_amount :: jsnum
  a_type :: "direction option"
  a_category :: category
  a_sender :: string
  a_receiver :: "string option"
  a_timestamp :: nat
  a_blockchainHash :: string
  a_status :: string
  a_createdBy :: nat
  a_organization :: string

datatype auth_reply = AuthFail nat message | AuthAdded auth_transaction

definition postTransaction_with_auth ::
  "env \<Rightarrow> user list \<Rightarrow> auth_transaction list \<Rightarrow> nat \<Rightarrow> tx_body \<Rightarrow> auth_transaction list \<times> auth_reply" where
  "postTransaction_with_auth e us txs userId b =
     (if \<not> dbConnected e then (txs, AuthFail 500 (StoreMessage BufferingTimedOut))
      else
        case findById us userId of
          None \<Rightarrow> (txs, AuthFail 404 (Text ''User not found''))
        | Some u \<Rightarrow>
            let sender' =
                  (if body_type b = JStr ''income'' then body_receiver b else JStr (walletAddress u));
                transactionReceiver =
                  (if body_type b = JStr ''income'' then JStr (walletAddress u) else body_receiver b)
            in (case parseFloat (fraction_text e) (body_amount b) of
                  None \<Rightarrow> (txs, AuthFail 500 (Text ''Cannot convert object to primitive value''))
                | Some amt \<Rightarrow>
                    let f = \<lparr>new_transactionId = now e,
                             new_description = body_description b,
                             new_amount = amt,
                             new_type = body_type b,
                             new_category = or_else (body_category b) (JStr ''other''),
                             new_sender = or_else sender' (JStr ''external''),
                             new_receiver = transactionReceiver,
                             new_blockchainHash = ''0x'' @ randomHash e,
                             new_createdBy = userId\<rparr>;
                        paths = invalid_paths (fraction_text e) f
                    in if paths \<noteq> [] then (txs, AuthFail 500 (StoreMessage (ValidationFailed paths)))
                       else if \<not> writeOk e then (txs, AuthFail 500 (StoreMessage WriteFailed))
                       else
                         (let t = \<lparr>a_transactionId = new_transactionId f,
                                   a_description = cast_option (castString (fraction_text e) (new_description f)),
                                   a_amount = amt,
                                   a_type =
                                     (case cast_option (castString (fraction_text e) (new_type f)) of
                                        None \<Rightarrow> None
                                      | Some ty \<Rightarrow> type_enum ty),
                                   a_category =
                                     the (category_enum (cast_text (castString (fraction_text e) (new_category f)))),
                                   a_sender = cast_text (castString (fraction_text e) (new_sender f)),
                                   a_receiver = cast_option (castString (fraction_text e) (new_receiver f)),
                                   a_timestamp = now e,
                                   a_blockchainHash = new_blockchainHash f,
                                   a_status = ''completed'',
                                   a_createdBy = userId,
                                   a_organization = ''default''\<rparr>
                          in (txs @ [t], AuthAdded t))))"

text \<open>
  \<^verbatim>\<open>POST /api/transactions\<close> of \<^verbatim>\<open>server.js\<close>. The identifier comes from the
  module-level counter \<^verbatim>\<open>mockNextId\<close>, which starts at 1 in every process and is
  incremented when the object is built, before anything is stored. The document goes
  to the collection when the connection is up and to the array \<^verbatim>\<open>mockTransactions\<close>
  otherwise. In mock mode the object carries the counter as \<^verbatim>\<open>id\<close>, a property the
  schema does not have, so the document saved from it has no identifier. The other
  properties are kept as the values given to the constructor; the paths whose cast
  fails are the argument \<open>casts\<close>.
\<close>

record legacy_body =
  l_body_description :: jsval
  l_body_amount :: jsval
  l_body_type :: jsval
  l_body_senderAddress :: jsval

record legacy_tx =
  l_transactionId :: "nat option"
  l_id :: "nat option"
  l_description :: jsval
  l_amount :: jsval
  l_type :: jsval
  l_sender :: jsval
  l_timestamp :: nat
  l_blockchainHash :: string
  l_status :: string

record legacy_state =
  useBlockchain :: bool
  financeTracker :: bool
  mockTransactions :: "legacy_tx list"
  mockNextId :: nat
  collection :: "legacy_tx list"

datatype legacy_reply = LegacyFail nat message | LegacyAdded legacy_tx string

text \<open>\<^verbatim>\<open>save()\<close> under this schema: the casts, then the write.\<close>

definition legacy_save :: "(legacy_tx \<Rightarrow> string list) \<Rightarrow> env \<Rightarrow> legacy_tx \<Rightarrow> store_error option" where
  "legacy_save casts e t =
     (if casts t \<noteq> [] then Some (ValidationFailed (casts t))
      else if \<not> writeOk e then Some WriteFailed
      else None)"

definition postTransaction_legacy ::
  "(legacy_tx \<Rightarrow> string list) \<Rightarrow> env \<Rightarrow> legacy_state \<Rightarrow> legacy_body \<Rightarrow> legacy_state \<times> legacy_reply" where
  "postTransaction_legacy casts e s b =
     (if useBlockchain s \<and> financeTracker s then
        (let t = \<lparr>l_transactionId = Some (mockNextId s),
                  l_id = None,
                  l_description = l_body_description b,
                  l_amount = l_body_amount b,
                  l_type = l_body_type b,
                  l_sender = or_else (l_body_senderAddress b) (JStr ''blockchain_user''),
                  l_timestamp = now e,
                  l_blockchainHash = ''0x'' @ randomHash e,
                  l_status = ''blockchain_pending''\<rparr>;
             s1 = s\<lparr>mockNextId := js_succ (mockNextId s)\<rparr>
         in if dbConnected e then
              (case legacy_save casts e t of
                 Some err \<Rightarrow> (s1, LegacyFail 500 (StoreMessage err))
               | None \<Rightarrow> (s1\<lparr>collection := collection s @ [t]\<rparr>, LegacyAdded t ''blockchain''))
            else (s1\<lparr>mockTransactions := mockTransactions s @ [t]\<rparr>, LegacyAdded t ''blockchain''))
      else
        (let t = \<lparr>l_transactionId = None,
                  l_id = Some (mockNextId s),
                  l_description = l_body_description b,
                  l_amount = l_body_amount b,
                  l_type = l_body_type b,
                  l_sender = or_else (l_body_senderAddress b) (JStr ''mock_user''),
                  l_timestamp = now e,
                  l_blockchainHash = ''mock_'' @ randomHash e,
                  l_status = ''completed''\<rparr>;
             s1 = s\<lparr>mockNextId := js_succ (mockNextId s)\<rparr>
         in if dbConnected e then
              (case legacy_save casts e t of
                 Some err \<Rightarrow> (s1, LegacyFail 500 (StoreMessage err))
               | None \<Rightarrow> (s1\<lparr>collection := collection s @ [t\<lparr>l_id := None\<rparr>]\<rparr>, LegacyAdded t ''mock''))
            else (s1\<lparr>mockTransactions := mockTransactions s @ [t]\<rparr>, LegacyAdded t ''mock'')))"

section \<open>A worked scenario\<close>

text \<open>
  A pool of two wallets, three registrations, and the two submissions of the first
  user: a paycheck and the rent. No request of the scenario prints a Number that is
  not whole.
\<close>

definition demo_env :: env where
  "demo_env =
     \<lparr>dbConnected = True, writeOk = True, now = 1700000000000, randomHash = ''9f3a'',
      bcrypt_hash = (\<lambda>p. ''$2a$12$'' @ p),
      bcrypt_compare = (\<lambda>p h. h = ''$2a$12$'' @ p),
      jwt_error = None,
      fraction_text = (\<lambda>r. ''0.5'')\<rparr>"

definition demo_pool :: "string list" where
  "demo_pool = [''W1'', ''W2'']"

definition start :: state where
  "start = \<lparr>users = [], transactions = [], assignedWallets = {}\<rparr>"

definition alice :: register_body where
  "alice = \<lparr>reg_username = Some ''alice'', reg_email = Some ''a@x.com'', reg_password = JStr ''secret1''\<rparr>"

definition bob :: register_body where
  "bob = \<lparr>reg_username = Some ''bob'', reg_email = Some ''b@x.com'', reg_password = JStr ''secret2''\<rparr>"

definition carol :: register_body where
  "carol = \<lparr>reg_username = Some ''carol'', reg_email = Some ''c@x.com'', reg_password = JStr ''secret3''\<rparr>"

definition paycheck :: tx_body where
  "paycheck =
     \<lparr>body_description = JStr ''Paycheck'', body_amount = JNum (Fin 1000),
      body_type = JStr ''income'', body_category = JStr ''salary'', body_receiver = JUndefined\<rparr>"

definition rent_payment :: tx_body where
  "rent_payment =
     \<lparr>body_description = JStr ''Rent'', body_amount = JNum (Fin 400),
      body_type = JStr ''expense'', body_category = JStr ''rent'', body_receiver = JUndefined\<rparr>"

text \<open>The state once alice is registered, as the first request leaves it.\<close>

definition alice_user :: user where
  "alice_user =
     \<lparr>user_id = 0, username = ''alice'', email = ''a@x.com'', password = ''$2a$12$secret1'',
      role = ''user'', walletAddress = ''W1'', createdAt = 1700000000000\<rparr>"

definition alice_state :: state where
  "alice_state = \<lparr>users = [alice_user], transactions = [], assignedWallets = {''W1''}\<rparr>"

definition demo_requests :: "(env \<times> request) list" where
  "demo_requests =
     [(demo_env, PostTransaction 0 paycheck),
      (demo_env, PostRegister bob),
      (demo_env, PostTransaction 0 rent_payment)]"

definition demo_submissions :: "(env \<times> nat \<times> tx_body) list" where
  "demo_submissions = [(demo_env, 0, paycheck), (demo_env, 0, rent_payment)]"

definition demo_registrations :: "(env \<times> request) list" where
  "demo_registrations = [(demo_env, PostRegister alice), (demo_env, PostRegister bob)]"

text \<open>The two documents the submissions create.\<close>

definition paycheck_tx :: transaction where
  "paycheck_tx =
     \<lparr>tx_oid = 0, transactionId = 1, description = ''Paycheck'', amount = Fin 1000,
      type = Income, category = Salary, sender = ''external_sender'', receiver = ''W1'',
      timestamp = 1700000000000, blockchainHash = ''0x9f3a'', status = ''completed'',
      createdBy = 0\<rparr>"

definition rent_tx :: transaction where
  "rent_tx =
     \<lparr>tx_oid = 1, transactionId = 2, description = ''Rent'', amount = Fin 400,
      type = Expense, category = Rent, sender = ''W1'', receiver = ''external_receiver'',
      timestamp = 1700000000000, blockchainHash = ''0x9f3a'', status = ''completed'',
      createdBy = 0\<rparr>"

text \<open>
  A body whose direction is an object with the property \<^verbatim>\<open>_id\<close>, as in
  \<^verbatim>\<open>{"type": {"_id": "income"}}\<close>, and the document stored for it.
\<close>

definition income_object :: tx_body where
  "income_object = paycheck\<lparr>body_type := JObj [(''_id'', JStr ''income'')]\<rparr>"

definition income_object_tx :: transaction where
  "income_object_tx = paycheck_tx\<lparr>sender := ''W1'', receiver := ''external_receiver''\<rparr>"

text \<open>
  Login attempts that fail: an unknown email, alice with a wrong password, and both
  with the number 12345 as password.
\<close>

definition nobody :: login_body where
  "nobody = \<lparr>login_email = Some ''n@x.com'', login_password = JStr ''secret1''\<rparr>"

definition wrong_password :: login_body where
  "wrong_password = \<lparr>login_email = Some ''a@x.com'', login_password = JStr ''guess''\<rparr>"

definition number_password :: login_body where
  "number_password = \<lparr>login_email = Some ''a@x.com'', login_password = JNum (Fin 12345)\<rparr>"

definition nobody_number :: login_body where
  "nobody_number = \<lparr>login_email = Some ''n@x.com'', login_password = JNum (Fin 12345)\<rparr>"

text \<open>
  An environment whose store rejects the write, one without a connection, and one
  without the configuration \<^verbatim>\<open>jwt.sign\<close> needs.
\<close>

definition write_fails :: env where
  "write_fails = demo_env\<lparr>writeOk := False\<rparr>"

definition offline :: env where
  "offline = demo_env\<lparr>dbConnected := False\<rparr>"

definition no_secret :: env where
  "no_secret = demo_env\<lparr>jwt_error := Some ''secretOrPrivateKey must have a value''\<rparr>"

text \<open>A registration of bob with the number 12345 as password.\<close>

definition bob_numeric :: register_body where
  "bob_numeric = bob\<lparr>reg_password := JNum (Fin 12345)\<rparr>"

text \<open>The user bob as the second wallet of the pool makes him.\<close>

definition bob_user :: user where
  "bob_user =
     \<lparr>user_id = 1, username = ''bob'', email = ''b@x.com'', password = ''$2a$12$secret2'',
      role = ''user'', walletAddress = ''W2'', createdAt = 1700000000000\<rparr>"

text \<open>
  Bodies with a direction outside the enum, with none, and with the amounts \<^verbatim>\<open>"0"\<close>,
  \<^verbatim>\<open>0\<close> and \<^verbatim>\<open>[0]\<close>; a body with the empty description.
\<close>

definition transfer :: tx_body where
  "transfer = rent_payment\<lparr>body_type := JStr ''transfer''\<rparr>"

definition untyped :: tx_body where
  "untyped = rent_payment\<lparr>body_type := JUndefined\<rparr>"

definition zero_text :: tx_body where
  "zero_text = paycheck\<lparr>body_amount := JStr ''0''\<rparr>"

definition zero_number :: tx_body where
  "zero_number = paycheck\<lparr>body_amount := JNum (Fin 0)\<rparr>"

definition zero_array :: tx_body where
  "zero_array = paycheck\<lparr>body_amount := JArr [JNum (Fin 0)]\<rparr>"

definition no_description :: tx_body where
  "no_description = paycheck\<lparr>body_description := JStr []\<rparr>"

definition zero_tx :: transaction where
  "zero_tx = paycheck_tx\<lparr>amount := Fin 0\<rparr>"

text \<open>
  Three transactions of one category with the amounts 0.1, 0.1 and 1.1, as the Numbers
  nearest to them, and three with whole amounts.
\<close>

definition tenth :: jsnum where
  "tenth = Fin (3602879701896397 / 36028797018963968)"

definition eleven_tenths :: jsnum where
  "eleven_tenths = Fin (2476979795053773 / 2251799813685248)"

definition fractions :: "transaction list" where
  "fractions =
     [paycheck_tx\<lparr>amount := tenth\<rparr>,
      rent_tx\<lparr>amount := tenth, category := Salary\<rparr>,
      paycheck_tx\<lparr>tx_oid := 2, transactionId := 3, amount := eleven_tenths\<rparr>]"

definition month_of :: "nat \<Rightarrow> string" where
  "month_of ts = (if ts < 1701388800000 then ''2023-11'' else ''2023-12'')"

definition ledger :: "transaction list" where
  "ledger =
     [paycheck_tx, rent_tx,
      paycheck_tx\<lparr>tx_oid := 2, transactionId := 3, amount := Fin 250, category := Other,
                  timestamp := 1701500000000\<rparr>]"

text \<open>
  The paycheck as \<^verbatim>\<open>server-with-auth.js\<close> stores it in an empty collection, and a
  process of \<^verbatim>\<open>server.js\<close> that has just started on a collection which already
  holds a document with the identifier 7. A collection whose highest identifier is
  \<open>2^53\<close>.
\<close>

definition auth_paycheck :: auth_transaction where
  "auth_paycheck =
     \<lparr>a_transactionId = 1700000000000, a_description = Some ''Paycheck'', a_amount = Fin 1000,
      a_type = Some Income, a_category = Salary, a_sender = ''external'', a_receiver = Some ''W1'',
      a_timestamp = 1700000000000, a_blockchainHash = ''0x9f3a'', a_status = ''completed'',
      a_createdBy = 0, a_organization = ''default''\<rparr>"

definition legacy_paycheck :: legacy_body where
  "legacy_paycheck =
     \<lparr>l_body_description = JStr ''Paycheck'', l_body_amount = JNum (Fin 1000),
      l_body_type = JStr ''income'', l_body_senderAddress = JUndefined\<rparr>"

definition earlier_doc :: legacy_tx where
  "earlier_doc =
     \<lparr>l_transactionId = Some 7, l_id = None, l_description = JStr ''Grant'',
      l_amount = JNum (Fin 50), l_type = JStr ''income'', l_sender = JStr ''blockchain_user'',
      l_timestamp = 1690000000000, l_blockchainHash = ''0x11aa'', l_status = ''blockchain_pending''\<rparr>"

definition restarted :: legacy_state where
  "restarted =
     \<lparr>useBlockchain = True, financeTracker = True, mockTransactions = [], mockNextId = 1,
      collection = [earlier_doc]\<rparr>"

definition legacy_added :: legacy_tx where
  "legacy_added =
     \<lparr>l_transactionId = Some 1, l_id = None, l_description = JStr ''Paycheck'',
      l_amount = JNum (Fin 1000), l_type = JStr ''income'', l_sender = JStr ''blockchain_user'',
      l_timestamp = 1700000000000, l_blockchainHash = ''0x9f3a'', l_status = ''blockchain_pending''\<rparr>"

definition no_casts_fail :: "legacy_tx \<Rightarrow> string list" where
  "no_casts_fail t = []"

definition at_the_limit :: "transaction list" where
  "at_the_limit = [paycheck_tx\<lparr>transactionId := 9007199254740992\<rparr>]"

section \<open>Numbers\<close>

text \<open>Whole numbers up to \<open>2^53\<close> in absolute value are Numbers: rounding leaves them alone.\<close>

lemma bits_bounds: "0 < n \<Longrightarrow> 2 ^ (bits n - 1) \<le> n \<and> n < 2 ^ bits n"
proof (induction n rule: bits.induct)
  case (1 n)
  show ?case
  proof (cases "n div 2 = 0")
    case True
    with "1.prems" have "n = 1" by (simp add: div_eq_0_iff) 
    then show ?thesis by (simp add: bits.simps)
  next
    case False
    then have pos: "0 < n div 2" by simp
    from "1.IH" "1.prems" pos have ih: "2 ^ (bits (n div 2) - 1) \<le> n div 2" "n div 2 < 2 ^ bits (n div 2)"
      by auto
    have b: "bits n = Suc (bits (n div 2))" using "1.prems" by (subst bits.simps) simp
    have bp: "0 < bits (n div 2)" using pos by (subst bits.simps) simp
    have "2 ^ (bits n - 1) = 2 * 2 ^ (bits (n div 2) - 1)"
      using b bp by (cases "bits (n div 2)") simp_all
    also have "\<dots> \<le> 2 * (n div 2)" using ih(1) by simp
    also have "\<dots> \<le> n" by simp
    finally have lo: "2 ^ (bits n - 1) \<le> n" .
    have "n < 2 * (n div 2) + 2" by presburger
    also have "\<dots> \<le> 2 * 2 ^ bits (n div 2)" using ih(2) by simp
    finally have "n < 2 ^ bits n" using b by simp
    with lo show ?thesis by simp
  qed
qed

lemma round_half_even_of_int: "round_half_even (of_int j) = j"
  by (simp add: round_half_even_def)

lemma floor_log2_of_nat: "0 < k \<Longrightarrow> floor_log2 (of_nat k) = int (bits k) - 1"
  by (simp add: floor_log2_def)

lemma bits_le_54:
  assumes "0 < k" "k \<le> 2 ^ 53"
  shows "bits k \<le> 54"
proof (rule ccontr)
  assume "\<not> bits k \<le> 54"
  then have "54 \<le> bits k - 1" by simp
  then have "(2::nat) ^ 54 \<le> 2 ^ (bits k - 1)" by (rule power_increasing) simp
  also have "\<dots> \<le> k" using bits_bounds[OF assms(1)] by simp
  finally show False using assms(2) by simp
qed

lemma bits_pos: "0 < k \<Longrightarrow> 0 < bits k"
  by (subst bits.simps) simp

lemma pow2_pos: "0 < pow2 e"
  by (simp add: pow2_def)

lemma round64_pos_exact:
  assumes "max (floor_log2 x - 52) (- 1074) = e" "x / pow2 e = of_int m" "e \<le> 970"
  shows "round64_pos x = Fin x"
proof -
  have m: "round_half_even (x / pow2 e) = m"
    by (simp only: assms(2) round_half_even_of_int)
  have "of_int m * pow2 e = x / pow2 e * pow2 e" by (simp only: assms(2))
  also have "\<dots> = x" using pow2_pos[of e] by simp
  finally have x: "of_int m * pow2 e = x" .
  show ?thesis
    unfolding round64_pos_def Let_def assms(1) m x using assms(3) by simp
qed

lemma round64_pos_of_nat:
  assumes "0 < k" "k \<le> 2 ^ 53"
  shows "round64_pos (of_nat k) = Fin (of_nat k)"
proof -
  let ?b = "bits k"
  have b: "0 < ?b" "?b \<le> 54" using assms bits_pos bits_le_54 by auto
  have e: "max (floor_log2 (of_nat k) - 52) (- 1074) = int ?b - 53"
    using b assms(1) by (simp add: floor_log2_of_nat)
  show ?thesis
  proof (cases "?b = 54")
    case True
    have "2 ^ 53 \<le> k" using bits_bounds[OF assms(1)] True by simp
    with assms(2) have k: "k = 2 ^ 53" by simp
    have q: "(of_nat k :: rat) / pow2 (int ?b - 53) = of_int (2 ^ 52)"
      by (simp add: True) (simp add: k pow2_def)
    from round64_pos_exact[OF e q] True show ?thesis by simp
  next
    case False
    with b have le: "?b \<le> 53" by simp
    define j where "j = 53 - ?b"
    have ej: "int ?b - 53 = - int j" using le by (simp add: j_def)
    have q: "(of_nat k :: rat) / pow2 (int ?b - 53) = of_int (int k * 2 ^ j)"
      by (simp add: ej pow2_def)
    from round64_pos_exact[OF e q] le show ?thesis by simp
  qed
qed

lemma round64_of_int:
  assumes "\<bar>k\<bar> \<le> 2 ^ 53"
  shows "round64 (of_int k) = Fin (of_int k)"
proof -
  consider "k = 0" | "0 < k" | "k < 0" by linarith
  then show ?thesis
  proof cases
    case 1
    then show ?thesis by (simp add: round64_def)
  next
    case 2
    then have "0 < nat k" "nat k \<le> 2 ^ 53" using assms by (simp_all add: nat_le_iff)
    from round64_pos_of_nat[OF this] 2 show ?thesis by (simp add: round64_def)
  next
    case 3
    then have "0 < nat (- k)" "nat (- k) \<le> 2 ^ 53" using assms by (simp_all add: nat_le_iff)
    from round64_pos_of_nat[OF this] 3 show ?thesis by (simp add: round64_def)
  qed
qed

lemma floor_rat_numeral: "\<lfloor>(numeral a / numeral b :: rat)\<rfloor> = numeral a div numeral b"
  using floor_divide_of_int_eq[of "numeral a" "numeral b", where ?'a = rat] by simp

lemma ceiling_rat_numeral: "\<lceil>(numeral a / numeral b :: rat)\<rceil> = - (- numeral a div numeral b)"
  using floor_divide_of_int_eq[of "- numeral a" "numeral b", where ?'a = rat]
  by (simp add: ceiling_def)

lemmas round64_eval = round64_def round64_pos_def floor_log2_def bits.simps round_half_even_def
  pow2_def Let_def floor_rat_numeral ceiling_rat_numeral

lemma round64_tie: "round64 (2 ^ 53 + 1) = Fin (2 ^ 53)"
  by (simp add: round64_eval)

lemma round64_tenth: "round64 (1 / 10) = Fin (3602879701896397 / 36028797018963968)"
  by (simp add: round64_eval)

lemma round64_sum: "round64 (3602879701896397 / 36028797018963968 + 2476979795053773 / 2251799813685248)
   = Fin (1351079888211149 / 1125899906842624)"
  by (simp add: round64_eval)

lemma js_add_int:
  assumes "\<bar>i + j\<bar> \<le> 2 ^ 53"
  shows "js_add (Fin (of_int i)) (Fin (of_int j)) = Fin (of_int (i + j))"
  using round64_of_int[OF assms] by simp

lemma js_succ_exact:
  assumes "n < 2 ^ 53"
  shows "js_succ n = Suc n"
proof -
  have "\<bar>int n + 1\<bar> \<le> 2 ^ 53" using assms by simp
  from js_add_int[OF this] have "js_add (Fin (of_nat n)) (Fin 1) = Fin (of_int (int n + 1))"
    by simp
  then show ?thesis unfolding js_succ_def by simp
qed

lemma js_succ_limit: "js_succ (2 ^ 53) = 2 ^ 53"
proof -
  have "js_add (Fin (of_nat (2 ^ 53))) (Fin 1) = round64 (2 ^ 53 + 1)" by simp
  also have "\<dots> = Fin (of_int (2 ^ 53))" using round64_tie by simp
  finally show ?thesis unfolding js_succ_def by (simp only: jsnum.case floor_of_int) simp
qed

section \<open>Properties of the wallet pool and of the sequencer\<close>

lemma getAvailableWalletFrom_find:
  "getAvailableWalletFrom pool A =
     (case find (\<lambda>w. w \<notin> A) pool of
        None \<Rightarrow> Inl ''No more wallets available''
      | Some w \<Rightarrow> Inr (w, insert w A))"
  by (induction pool) auto

lemma getAvailableWalletFrom_Inr:
  "getAvailableWalletFrom pool A = Inr (w, A') \<Longrightarrow> w \<in> set pool \<and> w \<notin> A \<and> A' = insert w A"
  by (induction pool) (auto split: if_splits)

lemma getAvailableWalletFrom_Inl:
  "(\<exists>m. getAvailableWalletFrom pool A = Inl m) \<longleftrightarrow> set pool \<subseteq> A"
  by (induction pool) auto

lemma getAvailableWalletFrom_exhausted:
  "set pool \<subseteq> A \<Longrightarrow> getAvailableWalletFrom pool A = Inl ''No more wallets available''"
  by (induction pool) auto

lemma pool_of_ten: "distinct AVAILABLE_WALLETS \<and> card (set AVAILABLE_WALLETS) = 10"
proof -
  have d: "distinct AVAILABLE_WALLETS" by (simp add: AVAILABLE_WALLETS_def)
  have "length AVAILABLE_WALLETS = 10" by (simp add: AVAILABLE_WALLETS_def)
  with d distinct_card[OF d] show ?thesis by simp
qed

lemma findOneSortDesc_Some:
  "txs \<noteq> [] \<Longrightarrow> \<exists>m. findOneSortDesc txs = Some m \<and> m \<in> set txs
      \<and> transactionId m = Max (transactionId ` set txs)"
proof (induction txs)
  case Nil
  then show ?case by simp
next
  case (Cons t ts)
  show ?case
  proof (cases "ts = []")
    case True
    then show ?thesis by simp
  next
    case False
    with Cons.IH obtain m where m: "findOneSortDesc ts = Some m" "m \<in> set ts"
      "transactionId m = Max (transactionId ` set ts)" by blast
    have fin: "finite (transactionId ` set ts)" "transactionId ` set ts \<noteq> {}"
      using False by auto
    have "Max (transactionId ` set (t # ts)) = max (transactionId t) (Max (transactionId ` set ts))"
      using fin by simp
    with m show ?thesis by (auto simp: max_def)
  qed
qed

lemma nextId_Nil: "nextId [] = 1"
  by (simp add: nextId_def)

lemma nextId_Max: "txs \<noteq> [] \<Longrightarrow> nextId txs = js_succ (Max (transactionId ` set txs))"
  using findOneSortDesc_Some[of txs] by (auto simp: nextId_def)

lemma nextId_below_limit:
  "txs \<noteq> [] \<Longrightarrow> Max (transactionId ` set txs) < 2 ^ 53 \<Longrightarrow>
     nextId txs = Max (transactionId ` set txs) + 1"
  by (simp add: nextId_Max js_succ_exact)

lemma Max_sequential:
  assumes "map transactionId txs = [1..<Suc (length txs)]" "txs \<noteq> []"
  shows "Max (transactionId ` set txs) = length txs"
proof -
  have "transactionId ` set txs = set (map transactionId txs)" by simp
  also have "\<dots> = set [1..<Suc (length txs)]" by (simp only: assms(1))
  also have "\<dots> = {1..<Suc (length txs)}" by (rule set_upt)
  finally have "transactionId ` set txs = {1..length txs}"
    by (simp add: atLeastLessThanSuc_atLeastAtMost)
  moreover have "1 \<le> length txs" using assms(2) by (cases txs) auto
  ultimately show ?thesis by (auto intro: Max_eqI)
qed

text \<open>
  On a collection that holds 1, ..., n the next identifier is n + 1 as long as
  \<open>n < 2^53\<close>; at \<open>n = 2^53\<close> the addition rounds and gives \<open>2^53\<close> again.
\<close>

lemma nextId_seq:
  assumes "map transactionId txs = [1..<Suc (length txs)]" "length txs < 2 ^ 53"
  shows "nextId txs = Suc (length txs)"
proof (cases "txs = []")
  case True
  then show ?thesis by (simp add: nextId_def)
next
  case False
  from Max_sequential[OF assms(1) False] assms(2) False show ?thesis
    by (simp add: nextId_below_limit)
qed

lemma nextId_seq_limit:
  assumes "map transactionId txs = [1..<Suc (length txs)]" "length txs = 2 ^ 53"
  shows "nextId txs \<in> transactionId ` set txs"
proof -
  have ne: "txs \<noteq> []" using assms(2) by auto
  have m: "Max (transactionId ` set txs) = 2 ^ 53"
    using Max_sequential[OF assms(1) ne] assms(2) by simp
  have "nextId txs = 2 ^ 53" using nextId_Max[OF ne] m js_succ_limit by simp
  with m have "nextId txs = Max (transactionId ` set txs)" by simp
  moreover have "Max (transactionId ` set txs) \<in> transactionId ` set txs"
    using ne by (intro Max_in) auto
  ultimately show ?thesis by simp
qed

section \<open>One request at a time\<close>

lemma saveTransaction_Inr:
  assumes "saveTransaction e txs f = Inr t"
  shows "transactionId t = new_transactionId f"
    and "new_transactionId f \<notin> transactionId ` set txs"
    and "amount t = new_amount f" and "new_amount f \<noteq> NaN"
    and "createdBy t = new_createdBy f"
    and "sender t = cast_text (castString (fraction_text e) (new_sender f))"
    and "receiver t = cast_text (castString (fraction_text e) (new_receiver f))"
    and "description t = cast_text (castString (fraction_text e) (new_description f))"
    and "type t = the (type_enum (cast_text (castString (fraction_text e) (new_type f))))"
    and "\<not> enum_invalid type_enum (castString (fraction_text e) (new_type f))"
    and "castString (fraction_text e) (new_sender f) \<noteq> CastError"
    and "castString (fraction_text e) (new_receiver f) \<noteq> CastError"
  using assms
  by (auto simp: saveTransaction_def invalid_paths_def list_ex_iff split: if_splits)

lemma addTransaction_cases:
  assumes "addTransaction e s userId b = (s', r)"
  shows "(\<exists>n m. r = Fail n m \<and> s' = s)
       \<or> (\<exists>t. r = TransactionAdded t \<and> s' = s\<lparr>transactions := transactions s @ [t]\<rparr>
              \<and> transactionId t = nextId (transactions s)
              \<and> transactionId t \<notin> transactionId ` set (transactions s))"
proof (cases "findById (users s) userId")
  case None
  with assms show ?thesis by (auto simp: addTransaction_def)
next
  case (Some u)
  show ?thesis
  proof (cases "parseFloat (fraction_text e) (body_amount b)")
    case None
    with Some assms show ?thesis by (auto simp: addTransaction_def Let_def)
  next
    case (Some amt)
    note amt = this
    let ?f = "\<lparr>new_transactionId = nextId (transactions s),
               new_description = body_description b,
               new_amount = amt,
               new_type = body_type b,
               new_category = or_else (body_category b) (JStr ''other''),
               new_sender =
                 (if body_type b = JStr ''income'' then or_else (body_receiver b) (JStr ''external_sender'')
                  else JStr (walletAddress u)),
               new_receiver =
                 (if body_type b = JStr ''income'' then JStr (walletAddress u)
                  else or_else (body_receiver b) (JStr ''external_receiver'')),
               new_blockchainHash = ''0x'' @ randomHash e,
               new_createdBy = userId\<rparr>"
    show ?thesis
    proof (cases "saveTransaction e (transactions s) ?f")
      case (Inl err)
      with \<open>findById (users s) userId = Some u\<close> amt assms show ?thesis
        by (auto simp: addTransaction_def Let_def)
    next
      case (Inr t)
      from saveTransaction_Inr(1,2)[OF Inr]
      have "transactionId t = nextId (transactions s)"
        "transactionId t \<notin> transactionId ` set (transactions s)" by simp_all
      with Inr \<open>findById (users s) userId = Some u\<close> amt assms show ?thesis
        by (auto simp: addTransaction_def Let_def)
    qed
  qed
qed

lemma postTransaction_cases:
  assumes "postTransaction e s userId b = (s', r)"
  shows "(\<exists>n m. r = Fail n m \<and> s' = s)
       \<or> (\<exists>t. r = TransactionAdded t \<and> s' = s\<lparr>transactions := transactions s @ [t]\<rparr>
              \<and> transactionId t = nextId (transactions s)
              \<and> transactionId t \<notin> transactionId ` set (transactions s))"
  using assms addTransaction_cases[of e s userId b s' r]
  by (auto simp: postTransaction_def split: if_splits)

lemma postTransaction_v1_cases:
  assumes "postTransaction_v1 e s userId b = (s', r)"
  shows "(\<exists>n m. r = Fail n m \<and> s' = s)
       \<or> (\<exists>t. r = TransactionAdded t \<and> s' = s\<lparr>transactions := transactions s @ [t]\<rparr>
              \<and> transactionId t = nextId (transactions s)
              \<and> transactionId t \<notin> transactionId ` set (transactions s))"
  using assms addTransaction_cases[of e s userId b s' r]
  by (auto simp: postTransaction_v1_def split: if_splits)

lemma register_transactions:
  "register pool e s b = (s', r) \<Longrightarrow> transactions s' = transactions s \<and> (\<forall>t. r \<noteq> TransactionAdded t)"
  by (auto simp: register_def Let_def
      split: if_splits option.splits sum.splits prod.splits jsval.splits)

lemma login_state:
  "login e s b = (s', r) \<Longrightarrow> s' = s \<and> (\<forall>t. r \<noteq> TransactionAdded t) \<and> (\<forall>t u. r \<noteq> Registered t u)"
  by (auto simp: login_def split: if_splits option.splits jsval.splits)

lemma getDashboardSummary_state:
  "getDashboardSummary e s userId = (s', r) \<Longrightarrow> s' = s \<and> (\<forall>t. r \<noteq> TransactionAdded t) \<and> (\<forall>t u. r \<noteq> Registered t u)"
  by (auto simp: getDashboardSummary_def Let_def split: if_splits)

text \<open>
  One request either leaves the transactions alone or appends one with the next
  identifier, which the unique index has found to be new.
\<close>

lemma handle_transactions:
  assumes "handle pool e s rq = (s', r)"
  shows "(transactions s' = transactions s \<and> committed_ids [r] = [])
       \<or> (\<exists>t. r = TransactionAdded t \<and> transactions s' = transactions s @ [t]
              \<and> transactionId t = nextId (transactions s)
              \<and> transactionId t \<notin> transactionId ` set (transactions s))"
proof (cases rq)
  case (PostRegister b)
  with assms register_transactions[of pool e s b s' r] show ?thesis
    by (cases r) auto
next
  case (PostLogin b)
  with assms login_state[of e s b s' r] show ?thesis by (cases r) auto
next
  case (PostTransaction userId b)
  with assms postTransaction_cases[of e s userId b s' r] show ?thesis by auto
next
  case (GetDashboardSummary userId)
  with assms getDashboardSummary_state[of e s userId s' r] show ?thesis by (cases r) auto
qed

text \<open>
  The collections the sequencer keeps in order: the identifiers are 1, ..., n, and n is
  \<open>2^53\<close> at most.
\<close>

lemma sequential_append:
  assumes "sequential txs" "length txs \<le> 2 ^ 53"
    and "transactionId t = nextId txs" "transactionId t \<notin> transactionId ` set txs"
  shows "sequential (txs @ [t]) \<and> length (txs @ [t]) \<le> 2 ^ 53
       \<and> transactionId t = Suc (length txs)"
proof -
  have s: "map transactionId txs = [1..<Suc (length txs)]"
    using assms(1) by (simp add: sequential_def)
  have lt: "length txs < 2 ^ 53"
  proof (rule ccontr)
    assume "\<not> length txs < 2 ^ 53"
    with assms(2) have "length txs = 2 ^ 53" by simp
    from nextId_seq_limit[OF s this] assms(3,4) show False by simp
  qed
  from nextId_seq[OF s lt] assms(3) have "transactionId t = Suc (length txs)" by simp
  with s lt show ?thesis by (simp add: sequential_def)
qed

lemma run_sequential:
  "sequential (transactions s) \<Longrightarrow> length (transactions s) \<le> 2 ^ 53 \<Longrightarrow>
   run pool s reqs = (s', reps) \<Longrightarrow>
     sequential (transactions s')
     \<and> length (transactions s) \<le> length (transactions s')
     \<and> committed_ids reps = [Suc (length (transactions s))..<Suc (length (transactions s'))]"
proof (induction reqs arbitrary: s s' reps)
  case Nil
  then show ?case by simp
next
  case (Cons er rest)
  obtain e rq where er: "er = (e, rq)" by (cases er)
  obtain s1 rep where h: "handle pool e s rq = (s1, rep)" by (cases "handle pool e s rq")
  obtain s2 reps2 where r2: "run pool s1 rest = (s2, reps2)" by (cases "run pool s1 rest")
  from Cons.prems(3) er h r2 have eq: "s' = s2" "reps = rep # reps2" by auto
  from handle_transactions[OF h] show ?case
  proof
    assume a: "transactions s1 = transactions s \<and> committed_ids [rep] = []"
    then have "sequential (transactions s1)" "length (transactions s1) \<le> 2 ^ 53"
      using Cons.prems(1,2) by simp_all
    from Cons.IH[OF this r2] a eq show ?thesis by (cases rep) auto
  next
    assume "\<exists>t. rep = TransactionAdded t \<and> transactions s1 = transactions s @ [t]
              \<and> transactionId t = nextId (transactions s)
              \<and> transactionId t \<notin> transactionId ` set (transactions s)"
    then obtain t where t: "rep = TransactionAdded t" "transactions s1 = transactions s @ [t]"
      "transactionId t = nextId (transactions s)"
      "transactionId t \<notin> transactionId ` set (transactions s)" by blast
    from sequential_append[OF Cons.prems(1,2) t(3,4)] t(2)
    have s1: "sequential (transactions s1)" "length (transactions s1) \<le> 2 ^ 53"
      and tid: "transactionId t = Suc (length (transactions s))" by simp_all
    from Cons.IH[OF s1 r2] have ih: "sequential (transactions s2)"
      "length (transactions s1) \<le> length (transactions s2)"
      "committed_ids reps2 = [Suc (length (transactions s1))..<Suc (length (transactions s2))]" by auto
    have len: "length (transactions s1) = Suc (length (transactions s))" using t(2) by simp
    have "committed_ids reps = Suc (length (transactions s)) # [Suc (Suc (length (transactions s)))..<Suc (length (transactions s2))]"
      using eq t(1) tid ih(3) len by simp
    also have "\<dots> = [Suc (length (transactions s))..<Suc (length (transactions s2))]"
      using ih(2) len by (simp add: upt_conv_Cons)
    finally show ?thesis using ih(1,2) len eq by simp
  qed
qed

lemma run_v1_sequential:
  "sequential (transactions s) \<Longrightarrow> length (transactions s) \<le> 2 ^ 53 \<Longrightarrow>
   run_v1 s subs = (s', reps) \<Longrightarrow>
     sequential (transactions s')
     \<and> length (transactions s) \<le> length (transactions s')
     \<and> committed_ids reps = [Suc (length (transactions s))..<Suc (length (transactions s'))]"
proof (induction subs arbitrary: s s' reps)
  case Nil
  then show ?case by simp
next
  case (Cons sub rest)
  obtain e userId b where sub: "sub = (e, userId, b)" by (cases sub)
  obtain s1 rep where h: "postTransaction_v1 e s userId b = (s1, rep)"
    by (cases "postTransaction_v1 e s userId b")
  obtain s2 reps2 where r2: "run_v1 s1 rest = (s2, reps2)" by (cases "run_v1 s1 rest")
  from Cons.prems(3) sub h r2 have eq: "s' = s2" "reps = rep # reps2" by auto
  from postTransaction_v1_cases[OF h] show ?case
  proof
    assume a: "\<exists>n m. rep = Fail n m \<and> s1 = s"
    then have "sequential (transactions s1)" "length (transactions s1) \<le> 2 ^ 53"
      using Cons.prems(1,2) by auto
    from Cons.IH[OF this r2] a eq show ?thesis by auto
  next
    assume "\<exists>t. rep = TransactionAdded t \<and> s1 = s\<lparr>transactions := transactions s @ [t]\<rparr>
              \<and> transactionId t = nextId (transactions s)
              \<and> transactionId t \<notin> transactionId ` set (transactions s)"
    then obtain t where t: "rep = TransactionAdded t" "transactions s1 = transactions s @ [t]"
      "transactionId t = nextId (transactions s)"
      "transactionId t \<notin> transactionId ` set (transactions s)" by auto
    from sequential_append[OF Cons.prems(1,2) t(3,4)] t(2)
    have s1: "sequential (transactions s1)" "length (transactions s1) \<le> 2 ^ 53"
      and tid: "transactionId t = Suc (length (transactions s))" by simp_all
    from Cons.IH[OF s1 r2] have ih: "sequential (transactions s2)"
      "length (transactions s1) \<le> length (transactions s2)"
      "committed_ids reps2 = [Suc (length (transactions s1))..<Suc (length (transactions s2))]" by auto
    have len: "length (transactions s1) = Suc (length (transactions s))" using t(2) by simp
    have "committed_ids reps = Suc (length (transactions s)) # [Suc (Suc (length (transactions s)))..<Suc (length (transactions s2))]"
      using eq t(1) tid ih(3) len by simp
    also have "\<dots> = [Suc (length (transactions s))..<Suc (length (transactions s2))]"
      using ih(2) len by (simp add: upt_conv_Cons)
    finally show ?thesis using ih(1,2) len eq by simp
  qed
qed

lemma ids_from_empty:
  assumes "transactions s = []" "sequential (transactions s')"
    "committed_ids reps = [Suc (length (transactions s))..<Suc (length (transactions s'))]"
  shows "committed_ids reps = [1..<Suc (length (committed_ids reps))]
     \<and> distinct (committed_ids reps)
     \<and> map transactionId (transactions s') = committed_ids reps"
proof -
  have c: "committed_ids reps = [1..<Suc (length (transactions s'))]" using assms(1,3) by simp
  have "length (committed_ids reps) = length [1..<Suc (length (transactions s'))]"
    by (simp only: c)
  then have "length (committed_ids reps) = length (transactions s')"
    by (simp del: upt_Suc)
  with c assms(2) show ?thesis by (simp add: sequential_def del: upt_Suc)
qed

section \<open>Registrations and the assigned set\<close>

text \<open>
  The four ways a registration ends: rejected with the state untouched; failed after the
  draw, the wallet kept; failed at the signing of the token, wallet and user kept;
  registered.
\<close>

lemma register_cases:
  assumes "register pool e s b = (s', r)"
  shows "(\<exists>n m. r = Fail n m \<and> s' = s)
       \<or> (\<exists>n m w. r = Fail n m \<and> w \<in> set pool \<and> w \<notin> assignedWallets s
            \<and> s' = s\<lparr>assignedWallets := insert w (assignedWallets s)\<rparr>)
       \<or> (\<exists>m u. r = Fail 500 (Text m) \<and> jwt_error e = Some m
            \<and> walletAddress u \<in> set pool \<and> walletAddress u \<notin> assignedWallets s
            \<and> s' = s\<lparr>assignedWallets := insert (walletAddress u) (assignedWallets s),
                      users := users s @ [u]\<rparr>)
       \<or> (\<exists>tok u. r = Registered tok u \<and> jwt_error e = None
            \<and> walletAddress u \<in> set pool \<and> walletAddress u \<notin> assignedWallets s
            \<and> s' = s\<lparr>assignedWallets := insert (walletAddress u) (assignedWallets s),
                      users := users s @ [u]\<rparr>)"
proof (cases "falsy_str (reg_username b) \<or> falsy_str (reg_email b) \<or> falsy (reg_password b)
      \<or> \<not> dbConnected e
      \<or> find (\<lambda>u. email u = the (reg_email b) \<or> username u = the (reg_username b)) (users s) \<noteq> None")
  case True
  with assms show ?thesis by (auto simp: register_def split: if_splits option.splits)
next
  case False
  note pre = this
  show ?thesis
  proof (cases "getAvailableWalletFrom pool (assignedWallets s)")
    case (Inl m)
    with pre assms show ?thesis by (auto simp: register_def)
  next
    case (Inr wa)
    obtain w A where wa: "wa = (w, A)" by (cases wa)
    from getAvailableWalletFrom_Inr[of pool "assignedWallets s" w A] Inr wa
    have w: "w \<in> set pool" "w \<notin> assignedWallets s" "A = insert w (assignedWallets s)" by auto
    show ?thesis
    proof (cases "reg_password b")
      case (JStr pw)
      let ?u = "\<lparr>user_id = length (users s), username = the (reg_username b),
                 email = the (reg_email b), password = bcrypt_hash e pw, role = ''user'',
                 walletAddress = w, createdAt = now e\<rparr>"
      show ?thesis
      proof (cases "saveUser e (users s) ?u")
        case (Inl err)
        with pre Inr wa w JStr assms show ?thesis
          by (auto simp: register_def Let_def)
      next
        case (Inr us)
        then have us: "us = users s @ [?u]" by (auto simp: saveUser_def split: if_splits)
        show ?thesis
        proof (cases "jwt_error e")
          case None
          with pre \<open>getAvailableWalletFrom pool (assignedWallets s) = Inr wa\<close> wa w JStr Inr us assms
          have "r = Registered (Token (length (users s)) (the (reg_username b)) ''user'' (Some w)) ?u"
            "s' = s\<lparr>assignedWallets := insert w (assignedWallets s), users := users s @ [?u]\<rparr>"
            by (auto simp: register_def Let_def)
          with w None show ?thesis by simp
        next
          case (Some m)
          with pre \<open>getAvailableWalletFrom pool (assignedWallets s) = Inr wa\<close> wa w JStr Inr us assms
          have "r = Fail 500 (Text m)"
            "s' = s\<lparr>assignedWallets := insert w (assignedWallets s), users := users s @ [?u]\<rparr>"
            by (auto simp: register_def Let_def)
          with w Some have "\<exists>m u. r = Fail 500 (Text m) \<and> jwt_error e = Some m
            \<and> walletAddress u \<in> set pool \<and> walletAddress u \<notin> assignedWallets s
            \<and> s' = s\<lparr>assignedWallets := insert (walletAddress u) (assignedWallets s),
                      users := users s @ [u]\<rparr>"
            by (intro exI[of _ m] exI[of _ ?u]) simp
          then show ?thesis by blast
        qed
      qed
    qed (use pre Inr wa w assms in \<open>auto simp: register_def Let_def\<close>)
  qed
qed

lemma handle_wallets:
  assumes "handle pool e s rq = (s', r)"
  shows "(registered [r] = [] \<and> users s' = users s
            \<and> assignedWallets s \<subseteq> assignedWallets s'
            \<and> assignedWallets s' \<subseteq> assignedWallets s \<union> set pool)
       \<or> (\<exists>u. users s' = users s @ [u]
            \<and> walletAddress u \<notin> assignedWallets s \<and> walletAddress u \<in> set pool
            \<and> assignedWallets s' = insert (walletAddress u) (assignedWallets s)
            \<and> ((\<exists>tok. r = Registered tok u) \<or> (is_failure r \<and> jwt_error e \<noteq> None)))"
proof (cases rq)
  case (PostRegister b)
  with assms have "register pool e s b = (s', r)" by simp
  from register_cases[OF this] show ?thesis by (elim disjE exE conjE) auto
next
  case (PostLogin b)
  with assms login_state[of e s b s' r] show ?thesis by (cases r) auto
next
  case (PostTransaction userId b)
  with assms postTransaction_cases[of e s userId b s' r] show ?thesis by auto
next
  case (GetDashboardSummary userId)
  with assms getDashboardSummary_state[of e s userId s' r] show ?thesis by (cases r) auto
qed

lemma registered_Cons:
  "registered (r # reps) = registered [r] @ registered reps"
  by (cases r) simp_all

lemma run_wallets:
  "run pool s reqs = (s', reps) \<Longrightarrow>
     \<exists>added. users s' = users s @ added
     \<and> distinct (map walletAddress added)
     \<and> walletAddress ` set added \<inter> assignedWallets s = {}
     \<and> walletAddress ` set added \<subseteq> assignedWallets s'
     \<and> assignedWallets s \<subseteq> assignedWallets s'
     \<and> assignedWallets s' \<subseteq> assignedWallets s \<union> set pool
     \<and> set (registered reps) \<subseteq> set added
     \<and> distinct (map walletAddress (registered reps))
     \<and> ((\<forall>er \<in> set reqs. jwt_error (fst er) = None) \<longrightarrow> registered reps = added)"
proof (induction reqs arbitrary: s s' reps)
  case Nil
  then show ?case by simp
next
  case (Cons er rest)
  obtain e rq where er: "er = (e, rq)" by (cases er)
  obtain s1 rep where h: "handle pool e s rq = (s1, rep)" by (cases "handle pool e s rq")
  obtain s2 reps2 where r2: "run pool s1 rest = (s2, reps2)" by (cases "run pool s1 rest")
  from Cons.prems er h r2 have eq: "s' = s2" "reps = rep # reps2" by auto
  from Cons.IH[OF r2] obtain added2 where ih:
    "users s2 = users s1 @ added2"
    "distinct (map walletAddress added2)"
    "walletAddress ` set added2 \<inter> assignedWallets s1 = {}"
    "walletAddress ` set added2 \<subseteq> assignedWallets s2"
    "assignedWallets s1 \<subseteq> assignedWallets s2"
    "assignedWallets s2 \<subseteq> assignedWallets s1 \<union> set pool"
    "set (registered reps2) \<subseteq> set added2"
    "distinct (map walletAddress (registered reps2))"
    "(\<forall>er \<in> set rest. jwt_error (fst er) = None) \<longrightarrow> registered reps2 = added2"
    by blast
  from handle_wallets[OF h] show ?case
  proof
    assume a: "registered [rep] = [] \<and> users s1 = users s
            \<and> assignedWallets s \<subseteq> assignedWallets s1
            \<and> assignedWallets s1 \<subseteq> assignedWallets s \<union> set pool"
    then have reg: "registered reps = registered reps2"
      using eq registered_Cons[of rep reps2] by simp
    have "users s' = users s @ added2" using a ih(1) eq by simp
    moreover have "walletAddress ` set added2 \<inter> assignedWallets s = {}" using a ih(3) by blast
    moreover have "assignedWallets s \<subseteq> assignedWallets s'" using a ih(5) eq by blast
    moreover have "assignedWallets s' \<subseteq> assignedWallets s \<union> set pool" using a ih(6) eq by blast
    moreover have "(\<forall>er \<in> set (er # rest). jwt_error (fst er) = None) \<longrightarrow> registered reps = added2"
      using ih(9) reg by simp
    ultimately show ?thesis using ih(2,4,7,8) reg eq by (intro exI[of _ added2]) simp
  next
    assume "\<exists>u. users s1 = users s @ [u]
            \<and> walletAddress u \<notin> assignedWallets s \<and> walletAddress u \<in> set pool
            \<and> assignedWallets s1 = insert (walletAddress u) (assignedWallets s)
            \<and> ((\<exists>tok. rep = Registered tok u) \<or> (is_failure rep \<and> jwt_error e \<noteq> None))"
    then obtain u where u: "users s1 = users s @ [u]"
      "walletAddress u \<notin> assignedWallets s" "walletAddress u \<in> set pool"
      "assignedWallets s1 = insert (walletAddress u) (assignedWallets s)"
      "(\<exists>tok. rep = Registered tok u) \<or> (is_failure rep \<and> jwt_error e \<noteq> None)" by blast
    have fresh: "walletAddress u \<notin> walletAddress ` set added2" using ih(3) u(4) by auto
    have reg: "registered [rep] = [u] \<or> (registered [rep] = [] \<and> jwt_error e \<noteq> None)"
      using u(5) by (cases rep) auto
    have sub: "set (registered reps) \<subseteq> set (u # added2)"
      using reg ih(7) eq registered_Cons[of rep reps2] by auto
    have d: "distinct (map walletAddress (registered reps))"
    proof -
      have "walletAddress u \<notin> walletAddress ` set (registered reps2)" using fresh ih(7) by blast
      with reg ih(8) eq registered_Cons[of rep reps2] show ?thesis by auto
    qed
    have all: "(\<forall>er \<in> set (er # rest). jwt_error (fst er) = None) \<longrightarrow> registered reps = u # added2"
      using reg ih(9) eq er registered_Cons[of rep reps2] by auto
    have "users s' = users s @ (u # added2)" using u(1) ih(1) eq by simp
    moreover have "distinct (map walletAddress (u # added2))" using fresh ih(2) by simp
    moreover have "walletAddress ` set (u # added2) \<inter> assignedWallets s = {}"
      using u(2,4) ih(3) by auto
    moreover have "walletAddress ` set (u # added2) \<subseteq> assignedWallets s'"
      using u(4) ih(4,5) eq by auto
    moreover have "assignedWallets s \<subseteq> assignedWallets s'" using u(4) ih(5) eq by auto
    moreover have "assignedWallets s' \<subseteq> assignedWallets s \<union> set pool"
      using u(3,4) ih(6) eq by auto
    ultimately show ?thesis using sub d all by (intro exI[of _ "u # added2"]) blast
  qed
qed

lemma register_exhausted:
  assumes "set pool \<subseteq> assignedWallets s"
    and "\<not> falsy_str (reg_username b)" "\<not> falsy_str (reg_email b)" "\<not> falsy (reg_password b)"
    and "dbConnected e"
    and "find (\<lambda>u. email u = the (reg_email b) \<or> username u = the (reg_username b)) (users s) = None"
  shows "register pool e s b = (s, Fail 500 (Text ''No more wallets available''))"
  using assms getAvailableWalletFrom_exhausted[OF assms(1)]
  by (simp add: register_def)

lemma full_pool:
  assumes "distinct ws" "set ws \<subseteq> A" "A \<subseteq> set pool" "length ws = card (set pool)"
  shows "set pool \<subseteq> A"
proof -
  have "card (set ws) = card (set pool)" using assms(1,4) by (simp add: distinct_card)
  moreover have "set ws \<subseteq> set pool" using assms(2,3) by blast
  ultimately have "set ws = set pool" by (simp add: card_subset_eq)
  with assms(2) show ?thesis by simp
qed

section \<open>Attribution\<close>

text \<open>
  When the direction of the body is a string, the handler and the schema read the same
  value, and a committed transaction is attributed as the comment in the handler says.
\<close>

lemma castString_JStr: "castString ft (JStr x) = Cast x"
  by simp

lemma cast_or_else:
  "castString ft (or_else v (JStr d)) \<noteq> CastError \<Longrightarrow> d \<noteq> [] \<Longrightarrow>
     cast_text (castString ft (or_else v (JStr d)))
       = (if truthy v then cast_text (castString ft v) else d)"
  by (simp add: or_else_def)

lemma addTransaction_attribution:
  assumes "addTransaction e s userId b = (s', TransactionAdded t)"
    and "findById (users s) userId = Some u"
    and "body_type b = JStr ty"
  shows "transactions s' = transactions s @ [t]
       \<and> (ty = ''income'' \<or> ty = ''expense'')
       \<and> (ty = ''income'' \<longrightarrow>
            type t = Income \<and> receiver t = walletAddress u
            \<and> sender t = (if truthy (body_receiver b)
                          then cast_text (castString (fraction_text e) (body_receiver b))
                          else ''external_sender''))
       \<and> (ty = ''expense'' \<longrightarrow>
            type t = Expense \<and> sender t = walletAddress u
            \<and> receiver t = (if truthy (body_receiver b)
                            then cast_text (castString (fraction_text e) (body_receiver b))
                            else ''external_receiver''))"
proof -
  obtain amt where amt: "parseFloat (fraction_text e) (body_amount b) = Some amt"
    using assms(1,2) by (cases "parseFloat (fraction_text e) (body_amount b)")
      (auto simp: addTransaction_def Let_def)
  let ?f = "\<lparr>new_transactionId = nextId (transactions s),
             new_description = body_description b,
             new_amount = amt,
             new_type = body_type b,
             new_category = or_else (body_category b) (JStr ''other''),
             new_sender =
               (if body_type b = JStr ''income'' then or_else (body_receiver b) (JStr ''external_sender'')
                else JStr (walletAddress u)),
             new_receiver =
               (if body_type b = JStr ''income'' then JStr (walletAddress u)
                else or_else (body_receiver b) (JStr ''external_receiver'')),
             new_blockchainHash = ''0x'' @ randomHash e,
             new_createdBy = userId\<rparr>"
  from assms(1,2) amt have sv: "saveTransaction e (transactions s) ?f = Inr t"
    and st: "s' = s\<lparr>transactions := transactions s @ [t]\<rparr>"
    by (auto simp: addTransaction_def Let_def split: sum.splits)
  note f = saveTransaction_Inr[OF sv]
  from f(10) assms(3) have en: "type_enum ty \<noteq> None" by (simp add: enum_invalid_def)
  then have ty: "ty = ''income'' \<or> ty = ''expense''" by (auto simp: type_enum_def split: if_splits)
  have inc: "type t = Income \<and> receiver t = walletAddress u
      \<and> sender t = (if truthy (body_receiver b)
                    then cast_text (castString (fraction_text e) (body_receiver b))
                    else ''external_sender'')" if "ty = ''income''"
    using that f(6,7,9,11) assms(3) by (simp add: type_enum_def or_else_def)
  have exp: "type t = Expense \<and> sender t = walletAddress u
      \<and> receiver t = (if truthy (body_receiver b)
                      then cast_text (castString (fraction_text e) (body_receiver b))
                      else ''external_receiver'')" if "ty = ''expense''"
    using that f(6,7,9,12) assms(3) by (simp add: type_enum_def or_else_def)
  from st ty inc exp show ?thesis by simp
qed

lemma attribution_of_text_direction:
  assumes "h = postTransaction \<or> h = postTransaction_v1"
    and "h e s userId b = (s', TransactionAdded t)"
    and "findById (users s) userId = Some u"
    and "body_type b = JStr ty"
  shows "transactions s' = transactions s @ [t]
       \<and> (ty = ''income'' \<or> ty = ''expense'')
       \<and> (ty = ''income'' \<longrightarrow>
            type t = Income \<and> receiver t = walletAddress u
            \<and> sender t = (if truthy (body_receiver b)
                          then cast_text (castString (fraction_text e) (body_receiver b))
                          else ''external_sender''))
       \<and> (ty = ''expense'' \<longrightarrow>
            type t = Expense \<and> sender t = walletAddress u
            \<and> receiver t = (if truthy (body_receiver b)
                            then cast_text (castString (fraction_text e) (body_receiver b))
                            else ''external_receiver''))"
proof -
  from assms(1,2) have a: "addTransaction e s userId b = (s', TransactionAdded t)"
    by (auto simp: postTransaction_def postTransaction_v1_def split: if_splits)
  from addTransaction_attribution[OF a assms(3,4)] show ?thesis .
qed

section \<open>Identifiers from the clock and from the counter\<close>

lemma with_auth_id:
  "postTransaction_with_auth e us atxs userId b = (atxs', AuthAdded a) \<Longrightarrow>
     a_transactionId a = now e \<and> atxs' = atxs @ [a]"
  by (auto simp: postTransaction_with_auth_def Let_def split: if_splits option.splits)

lemma legacy_id:
  "postTransaction_legacy casts e ls lb = (ls', LegacyAdded l m) \<Longrightarrow>
     (l_transactionId l = Some (mockNextId ls) \<or> l_id l = Some (mockNextId ls))
     \<and> mockNextId ls' = js_succ (mockNextId ls)"
  by (auto simp: postTransaction_legacy_def Let_def split: if_splits option.splits)

lemma legacy_counter:
  "mockNextId (fst (postTransaction_legacy casts e ls lb)) = js_succ (mockNextId ls)"
  by (auto simp: postTransaction_legacy_def Let_def split: if_splits option.splits)

lemma js_succ_limit_numeral: "js_succ 9007199254740992 = 9007199254740992"
  using js_succ_limit by simp

section \<open>Sums of amounts\<close>

text \<open>
  Addition on Numbers rounds, so it is not associative in general. It is exact on whole
  numbers as long as the result stays within \<open>2^53\<close>, and then the sums of the
  dashboard do not depend on the order of the additions.
\<close>

lemma whole_Fin: "whole a \<Longrightarrow> a = Fin (of_int (int_of a))"
  by (cases a) auto

lemma js_add_whole:
  assumes "whole a" "whole b" "\<bar>int_of a + int_of b\<bar> \<le> 2 ^ 53"
  shows "js_add a b = Fin (of_int (int_of a + int_of b))"
proof -
  have "js_add (Fin (of_int (int_of a))) (Fin (of_int (int_of b)))
      = Fin (of_int (int_of a + int_of b))"
    by (rule js_add_int[OF assms(3)])
  with whole_Fin[OF assms(1)] whole_Fin[OF assms(2)] show ?thesis by simp
qed

lemma whole_of_int: "whole (Fin (of_int k))" "int_of (Fin (of_int k)) = k"
  by simp_all

lemma sum_abs_nonneg: "0 \<le> sum_list (map (\<lambda>x. \<bar>g x :: int\<bar>) xs)"
  by (induction xs) auto

lemma abs_sum_le: "\<bar>sum_list (map g xs)\<bar> \<le> sum_list (map (\<lambda>x. \<bar>g x :: int\<bar>) xs)"
  by (induction xs) auto

lemma foldl_js_add_exact:
  assumes "list_all (\<lambda>x. whole (f x)) xs"
    and "\<bar>k\<bar> + sum_list (map (\<lambda>x. \<bar>int_of (f x)\<bar>) xs) \<le> 2 ^ 53"
  shows "foldl (\<lambda>sum x. js_add sum (f x)) (Fin (of_int k)) xs
       = Fin (of_int (k + sum_list (map (\<lambda>x. int_of (f x)) xs)))"
  using assms
proof (induction xs arbitrary: k)
  case Nil
  then show ?case by simp
next
  case (Cons x xs)
  let ?a = "int_of (f x)"
  have wx: "whole (f x)" and wxs: "list_all (\<lambda>x. whole (f x)) xs" using Cons.prems(1) by simp_all
  have rest: "0 \<le> sum_list (map (\<lambda>x. \<bar>int_of (f x)\<bar>) xs)" by (rule sum_abs_nonneg)
  have b: "\<bar>k\<bar> + \<bar>?a\<bar> + sum_list (map (\<lambda>x. \<bar>int_of (f x)\<bar>) xs) \<le> 2 ^ 53"
    using Cons.prems(2) by simp
  have "\<bar>int_of (Fin (of_int k)) + ?a\<bar> \<le> 2 ^ 53" using b rest by simp
  from js_add_whole[OF whole_of_int(1) wx this]
  have step: "js_add (Fin (of_int k)) (f x) = Fin (of_int (k + ?a))" by simp
  have "\<bar>k + ?a\<bar> + sum_list (map (\<lambda>x. \<bar>int_of (f x)\<bar>) xs) \<le> 2 ^ 53" using b by linarith
  from Cons.IH[OF wxs this] step show ?case by (simp add: add.assoc)
qed

lemma sum_amounts_exact:
  assumes "exact_amounts txs"
  shows "sum_amounts txs = Fin (of_int (sum_list (map (\<lambda>t. int_of (amount t)) txs)))"
  using foldl_js_add_exact[of amount txs 0] assms
  by (simp add: exact_amounts_def sum_amounts_def)

lemma sum_filter_le:
  "sum_list (map (\<lambda>x. \<bar>g x :: int\<bar>) (filter P xs)) \<le> sum_list (map (\<lambda>x. \<bar>g x\<bar>) xs)"
  by (induction xs) auto

lemma exact_amounts_filter: "exact_amounts txs \<Longrightarrow> exact_amounts (filter P txs)"
  using sum_filter_le[of "\<lambda>t. int_of (amount t)" P txs]
  by (auto simp: exact_amounts_def list_all_iff)

lemma sum_by_type:
  "sum_list (map g (filter (\<lambda>t. type t = Income) txs))
     + sum_list (map g (filter (\<lambda>t. type t = Expense) txs)) = (sum_list (map g txs) :: int)"
proof (induction txs)
  case Nil
  show ?case by simp
next
  case (Cons t ts)
  then show ?case by (cases "type t") simp_all
qed

lemma totals_exact:
  assumes "exact_amounts txs"
  shows "js_add (sum_amounts (filter (\<lambda>t. type t = Income) txs))
                (sum_amounts (filter (\<lambda>t. type t = Expense) txs))
       = Fin (of_int (sum_list (map (\<lambda>t. int_of (amount t)) txs)))"
proof -
  let ?g = "\<lambda>t. int_of (amount t)"
  let ?i = "sum_list (map ?g (filter (\<lambda>t. type t = Income) txs))"
  let ?e = "sum_list (map ?g (filter (\<lambda>t. type t = Expense) txs))"
  have s: "?i + ?e = sum_list (map ?g txs)" by (rule sum_by_type)
  have "\<bar>sum_list (map ?g txs)\<bar> \<le> 2 ^ 53"
    using abs_sum_le[of ?g txs] assms by (simp add: exact_amounts_def)
  with s have "\<bar>?i + ?e\<bar> \<le> 2 ^ 53" by simp
  from js_add_int[OF this] s
    sum_amounts_exact[OF exact_amounts_filter[OF assms, of "\<lambda>t. type t = Income"]]
    sum_amounts_exact[OF exact_amounts_filter[OF assms, of "\<lambda>t. type t = Expense"]]
  show ?thesis by simp
qed

lemma total_add_to_bucket: "total (add_to_bucket t b) = js_add (total b) (amount t)"
  by (cases "type t") (simp_all add: add_to_bucket_def)

text \<open>
  The buckets while the transactions are folded in: every total is whole, and the
  absolute values of the totals add up to no more than those of the amounts folded in
  so far.
\<close>

lemma update_bucket_exact:
  assumes "list_all (\<lambda>kb. whole (total (snd kb))) acc" "whole (amount t)"
    and "sum_list (map (\<lambda>kb. \<bar>int_of (total (snd kb))\<bar>) acc) + \<bar>int_of (amount t)\<bar> \<le> 2 ^ 53"
  shows "list_all (\<lambda>kb. whole (total (snd kb))) (update_bucket c t acc)
       \<and> sum_list (map (\<lambda>kb. \<bar>int_of (total (snd kb))\<bar>) (update_bucket c t acc))
           \<le> sum_list (map (\<lambda>kb. \<bar>int_of (total (snd kb))\<bar>) acc) + \<bar>int_of (amount t)\<bar>
       \<and> sum_list (map (\<lambda>kb. int_of (total (snd kb))) (update_bucket c t acc))
           = sum_list (map (\<lambda>kb. int_of (total (snd kb))) acc) + int_of (amount t)"
  using assms
proof (induction acc)
  case Nil
  have "\<bar>int_of (Fin 0) + int_of (amount t)\<bar> \<le> 2 ^ 53" using Nil.prems(3) by simp
  from js_add_whole[OF _ Nil.prems(2) this]
  have "js_add (Fin 0) (amount t) = Fin (of_int (int_of (amount t)))" by simp
  then show ?case by (simp add: total_add_to_bucket)
next
  case (Cons kb acc)
  obtain k b where kb: "kb = (k, b)" by (cases kb)
  have wb: "whole (total b)" and wacc: "list_all (\<lambda>kb. whole (total (snd kb))) acc"
    using Cons.prems(1) kb by simp_all
  have rest: "0 \<le> sum_list (map (\<lambda>kb. \<bar>int_of (total (snd kb))\<bar>) acc)" by (rule sum_abs_nonneg)
  have bound: "\<bar>int_of (total b)\<bar> + sum_list (map (\<lambda>kb. \<bar>int_of (total (snd kb))\<bar>) acc)
      + \<bar>int_of (amount t)\<bar> \<le> 2 ^ 53"
    using Cons.prems(3) kb by simp
  show ?case
  proof (cases "k = c")
    case True
    have "\<bar>int_of (total b) + int_of (amount t)\<bar> \<le> 2 ^ 53" using bound rest by linarith
    from js_add_whole[OF wb Cons.prems(2) this]
    have "js_add (total b) (amount t) = Fin (of_int (int_of (total b) + int_of (amount t)))" .
    with True kb wacc show ?thesis by (simp add: total_add_to_bucket)
  next
    case False
    have "sum_list (map (\<lambda>kb. \<bar>int_of (total (snd kb))\<bar>) acc) + \<bar>int_of (amount t)\<bar> \<le> 2 ^ 53"
      using bound by linarith
    from Cons.IH[OF wacc Cons.prems(2) this] False kb wb show ?thesis by simp
  qed
qed

lemma fold_buckets_exact:
  assumes "list_all (\<lambda>kb. whole (total (snd kb))) acc"
    and "list_all (\<lambda>t. whole (amount t)) txs"
    and "sum_list (map (\<lambda>kb. \<bar>int_of (total (snd kb))\<bar>) acc)
           + sum_list (map (\<lambda>t. \<bar>int_of (amount t)\<bar>) txs) \<le> 2 ^ 53"
  shows "list_all (\<lambda>kb. whole (total (snd kb))) (foldl (\<lambda>acc t. update_bucket (key t) t acc) acc txs)
       \<and> sum_list (map (\<lambda>kb. \<bar>int_of (total (snd kb))\<bar>) (foldl (\<lambda>acc t. update_bucket (key t) t acc) acc txs))
           \<le> sum_list (map (\<lambda>kb. \<bar>int_of (total (snd kb))\<bar>) acc)
              + sum_list (map (\<lambda>t. \<bar>int_of (amount t)\<bar>) txs)
       \<and> sum_list (map (\<lambda>kb. int_of (total (snd kb))) (foldl (\<lambda>acc t. update_bucket (key t) t acc) acc txs))
           = sum_list (map (\<lambda>kb. int_of (total (snd kb))) acc)
             + sum_list (map (\<lambda>t. int_of (amount t)) txs)"
  using assms
proof (induction txs arbitrary: acc)
  case Nil
  then show ?case by simp
next
  case (Cons t ts)
  let ?acc = "update_bucket (key t) t acc"
  have wt: "whole (amount t)" and wts: "list_all (\<lambda>t. whole (amount t)) ts"
    using Cons.prems(2) by simp_all
  have rest: "0 \<le> sum_list (map (\<lambda>t. \<bar>int_of (amount t)\<bar>) ts)" by (rule sum_abs_nonneg)
  have b: "sum_list (map (\<lambda>kb. \<bar>int_of (total (snd kb))\<bar>) acc) + \<bar>int_of (amount t)\<bar>
      + sum_list (map (\<lambda>t. \<bar>int_of (amount t)\<bar>) ts) \<le> 2 ^ 53"
    using Cons.prems(3) by simp
  have "sum_list (map (\<lambda>kb. \<bar>int_of (total (snd kb))\<bar>) acc) + \<bar>int_of (amount t)\<bar> \<le> 2 ^ 53"
    using b rest by linarith
  from update_bucket_exact[OF Cons.prems(1) wt this, of "key t"]
  have u: "list_all (\<lambda>kb. whole (total (snd kb))) ?acc"
    "sum_list (map (\<lambda>kb. \<bar>int_of (total (snd kb))\<bar>) ?acc)
       \<le> sum_list (map (\<lambda>kb. \<bar>int_of (total (snd kb))\<bar>) acc) + \<bar>int_of (amount t)\<bar>"
    "sum_list (map (\<lambda>kb. int_of (total (snd kb))) ?acc)
       = sum_list (map (\<lambda>kb. int_of (total (snd kb))) acc) + int_of (amount t)"
    by simp_all
  have "sum_list (map (\<lambda>kb. \<bar>int_of (total (snd kb))\<bar>) ?acc)
      + sum_list (map (\<lambda>t. \<bar>int_of (amount t)\<bar>) ts) \<le> 2 ^ 53"
    using u(2) b by linarith
  from Cons.IH[OF u(1) wts this] u(2,3) show ?case by simp
qed

lemma sum_totals_buckets_exact:
  assumes "exact_amounts txs"
  shows "sum_totals (foldl (\<lambda>acc t. update_bucket (key t) t acc) [] txs)
       = Fin (of_int (sum_list (map (\<lambda>t. int_of (amount t)) txs)))"
proof -
  let ?acc = "foldl (\<lambda>acc t. update_bucket (key t) t acc) [] txs"
  from assms have w: "list_all (\<lambda>t. whole (amount t)) txs"
    and b: "sum_list (map (\<lambda>kb. \<bar>int_of (total (snd kb))\<bar>) ([] :: ('a \<times> bucket) list))
           + sum_list (map (\<lambda>t. \<bar>int_of (amount t)\<bar>) txs) \<le> 2 ^ 53"
    by (simp_all add: exact_amounts_def)
  from fold_buckets_exact[OF _ w b, of key]
  have f: "list_all (\<lambda>kb. whole (total (snd kb))) ?acc"
    "sum_list (map (\<lambda>kb. \<bar>int_of (total (snd kb))\<bar>) ?acc)
       \<le> sum_list (map (\<lambda>t. \<bar>int_of (amount t)\<bar>) txs)"
    "sum_list (map (\<lambda>kb. int_of (total (snd kb))) ?acc)
       = sum_list (map (\<lambda>t. int_of (amount t)) txs)"
    by simp_all
  have "\<bar>0\<bar> + sum_list (map (\<lambda>kb. \<bar>int_of (total (snd kb))\<bar>) ?acc) \<le> 2 ^ 53"
    using f(2) assms by (simp add: exact_amounts_def)
  from foldl_js_add_exact[OF f(1) this] f(3) show ?thesis by (simp add: sum_totals_def)
qed

lemma sum_totals_categoryData:
  "exact_amounts txs \<Longrightarrow>
     sum_totals (categoryData txs) = Fin (of_int (sum_list (map (\<lambda>t. int_of (amount t)) txs)))"
  unfolding categoryData_def by (rule sum_totals_buckets_exact)

lemma sum_totals_monthlyData:
  "exact_amounts txs \<Longrightarrow>
     sum_totals (monthlyData month txs) = Fin (of_int (sum_list (map (\<lambda>t. int_of (amount t)) txs)))"
  unfolding monthlyData_def by (rule sum_totals_buckets_exact)

section \<open>Requests that fail\<close>

lemma register_rejected:
  assumes "rejected_before_draw pool e s b"
  shows "\<exists>n m. register pool e s b = (s, Fail n m)"
proof (cases "falsy_str (reg_username b) \<or> falsy_str (reg_email b) \<or> falsy (reg_password b)
      \<or> \<not> dbConnected e
      \<or> find (\<lambda>u. email u = the (reg_email b) \<or> username u = the (reg_username b)) (users s) \<noteq> None")
  case True
  then show ?thesis by (auto simp: register_def split: option.splits)
next
  case False
  with assms have "set pool \<subseteq> assignedWallets s" by (auto simp: rejected_before_draw_def)
  from getAvailableWalletFrom_exhausted[OF this] False show ?thesis
    by (auto simp: register_def)
qed

lemma register_failure:
  assumes "register pool e s b = (s', r)" "is_failure r"
  shows "transactions s' = transactions s \<and> assignedWallets s \<subseteq> assignedWallets s'
       \<and> take (length (users s)) (users s') = users s"
  using register_cases[OF assms(1)] by (elim disjE exE conjE) auto

lemma postTransaction_failure:
  assumes "postTransaction e s userId b = (s', r)" "is_failure r"
  shows "s' = s"
  using postTransaction_cases[OF assms(1)] assms(2) by auto

lemma postTransaction_v1_failure:
  assumes "postTransaction_v1 e s userId b = (s', r)" "is_failure r"
  shows "s' = s"
  using postTransaction_v1_cases[OF assms(1)] assms(2) by auto

lemma required_fields:
  assumes "falsy (body_description b) \<or> falsy (body_amount b) \<or> falsy (body_type b)"
  shows "postTransaction e s userId b
           = (s, Fail 400 (Text ''Description, amount, and type are required''))"
    and "postTransaction_v1 e s userId b
           = (s, Fail 400 (Text ''Description, amount, and type are required''))"
  using assms by (auto simp: postTransaction_def postTransaction_v1_def)




lemma postTransaction_amount:
  assumes "h = postTransaction \<or> h = postTransaction_v1"
    and "h e s userId b = (s', TransactionAdded t)"
  shows "parseFloat (fraction_text e) (body_amount b) = Some (amount t) \<and> truthy (body_amount b)"
proof -
  from assms have a: "addTransaction e s userId b = (s', TransactionAdded t)"
    and tr: "truthy (body_amount b)"
    by (auto simp: postTransaction_def postTransaction_v1_def falsy_def split: if_splits)
  from a have "parseFloat (fraction_text e) (body_amount b) = Some (amount t)"
    by (auto simp: addTransaction_def Let_def dest!: saveTransaction_Inr(3)
        split: option.splits sum.splits)
  with tr show ?thesis by simp
qed

text \<open>
  With a password that is a string, the two ways a login fails on the credentials get
  the same reply.
\<close>

lemma login_failures_text_password:
  assumes "\<not> falsy_str (login_email b1)" "\<not> falsy (login_password b1)"
    and "\<not> falsy_str (login_email b2)" "login_password b2 = JStr pw" "pw \<noteq> []"
    and "dbConnected e1" "dbConnected e2"
    and "find (\<lambda>u. email u = the (login_email b1)) (users s1) = None"
    and "find (\<lambda>u. email u = the (login_email b2)) (users s2) = Some u"
    and "\<not> bcrypt_compare e2 pw (password u)"
  shows "snd (login e1 s1 b1) = snd (login e2 s2 b2)
       \<and> snd (login e1 s1 b1) = Fail 400 (Text ''Invalid email or password'')"
  using assms by (simp add: login_def falsy_def)

section \<open>Evaluating the handlers\<close>

lemmas demo_defs = demo_env_def demo_pool_def start_def alice_def bob_def carol_def paycheck_def
  rent_payment_def alice_user_def alice_state_def demo_requests_def demo_submissions_def
  demo_registrations_def paycheck_tx_def rent_tx_def income_object_def income_object_tx_def
  nobody_def wrong_password_def number_password_def nobody_number_def
  write_fails_def offline_def no_secret_def bob_user_def bob_numeric_def transfer_def untyped_def zero_text_def
  zero_number_def zero_array_def no_description_def zero_tx_def auth_paycheck_def
  legacy_paycheck_def earlier_doc_def restarted_def legacy_added_def no_casts_fail_def
  at_the_limit_def

lemmas handler_defs = register_def login_def postTransaction_def postTransaction_v1_def
  addTransaction_def saveTransaction_def saveUser_def invalid_paths_def enum_invalid_def
  type_enum_def category_enum_def nextId_def findById_def falsy_str_def falsy_def or_else_def
  getDashboardSummary_def postTransaction_with_auth_def postTransaction_legacy_def
  legacy_save_def parseFloat_def js_succ_exact Let_def

lemmas parse_defs = parseFloat_str_def parse_unsigned_def parse_exponent_def pow10_def
  digits_val_def digit_val_def is_digit_def skip_ws.simps ws_len_def

lemma first_registration:
  "fst (run demo_pool start [(demo_env, PostRegister alice)]) = alice_state"
  by (simp add: demo_defs handler_defs)

lemma demo_requests_ids:
  "committed_ids (snd (run demo_pool alice_state demo_requests)) = [1, 2]"
  by (simp add: demo_defs handler_defs)

lemma demo_submissions_ids:
  "committed_ids (snd (run_v1 alice_state demo_submissions)) = [1, 2]"
  by (simp add: demo_defs handler_defs)

lemmas summary_defs = summarize_def summarize_v1_def sum_amounts_def categoryData_def
  monthlyData_def add_to_bucket_def sum_totals_def js_sub_def

lemmas amount_defs = fractions_def ledger_def tenth_def eleven_tenths_def month_of_def
  paycheck_tx_def rent_tx_def

section \<open>The claims\<close>

text \<open>
  C1. Served one after the other from a store without transactions, the
  submissions that commit receive the identifiers 1, 2, 3, ... in order: the
  identifiers reported in the replies are pairwise distinct, they are the list from 1
  to their number without a gap, and they are the identifiers in the store. This holds
  for the server with the wallet pool, with other requests in between, and for the
  route of the earlier server.
\<close>

theorem transaction_ids_sequential:
  assumes "transactions s = []"
  shows "(let ids = committed_ids (snd (run pool s reqs))
          in ids = [1..<Suc (length ids)] \<and> distinct ids
             \<and> map transactionId (transactions (fst (run pool s reqs))) = ids)
       \<and> (let ids = committed_ids (snd (run_v1 s subs))
          in ids = [1..<Suc (length ids)] \<and> distinct ids
             \<and> map transactionId (transactions (fst (run_v1 s subs))) = ids)"
proof -
  have seq: "sequential (transactions s)" using assms by (simp add: sequential_def)
  obtain s' reps where r: "run pool s reqs = (s', reps)" by (cases "run pool s reqs")
  obtain s1 reps1 where r1: "run_v1 s subs = (s1, reps1)" by (cases "run_v1 s subs")
  have le: "length (transactions s) \<le> 2 ^ 53" using assms by simp
  from run_sequential[OF seq le r] ids_from_empty[OF assms, of s' reps]
  have a: "committed_ids reps = [1..<Suc (length (committed_ids reps))]
     \<and> distinct (committed_ids reps)
     \<and> map transactionId (transactions s') = committed_ids reps" by blast
  from run_v1_sequential[OF seq le r1] ids_from_empty[OF assms, of s1 reps1]
  have b: "committed_ids reps1 = [1..<Suc (length (committed_ids reps1))]
     \<and> distinct (committed_ids reps1)
     \<and> map transactionId (transactions s1) = committed_ids reps1" by blast
  from a b r r1 show ?thesis by (simp add: Let_def del: upt_Suc)
qed

theorem transaction_ids_sequential_witness:
  "transactions alice_state = []
   \<and> (let ids = committed_ids (snd (run demo_pool alice_state demo_requests))
      in ids = [1..<Suc (length ids)] \<and> distinct ids
         \<and> map transactionId (transactions (fst (run demo_pool alice_state demo_requests))) = ids)
   \<and> (let ids = committed_ids (snd (run_v1 alice_state demo_submissions))
      in ids = [1..<Suc (length ids)] \<and> distinct ids
         \<and> map transactionId (transactions (fst (run_v1 alice_state demo_submissions))) = ids)"
proof -
  have h: "transactions alice_state = []" by (simp add: alice_state_def)
  from transaction_ids_sequential[OF h, of demo_pool demo_requests demo_submissions] h
  show ?thesis by blast
qed

text \<open>
  C2 at the body \<^verbatim>\<open>{"description": "Paycheck", "amount": 1000, "type": {"_id": "income"},
  "category": "salary"}\<close>, submitted by alice, whose wallet is \<^verbatim>\<open>W1\<close>, to either server
  that sequences identifiers. The handler compares the value of \<^verbatim>\<open>type\<close> with the
  string \<^verbatim>\<open>income\<close>, finds them different and attributes the transaction as an
  expense; the schema casts the same value to \<^verbatim>\<open>income\<close>. The document is created
  with the direction income, the wallet of alice as sender and \<^verbatim>\<open>external_receiver\<close>
  as receiver, where the comment above the attribution wants the wallet of the user as
  receiver of an income.
\<close>

theorem income_attributed_as_expense:
  "findById (users alice_state) 0 = Some alice_user
   \<and> walletAddress alice_user = ''W1''
   \<and> body_type income_object = JObj [(''_id'', JStr ''income'')]
   \<and> body_receiver income_object = JUndefined
   \<and> postTransaction demo_env alice_state 0 income_object
       = (alice_state\<lparr>transactions := [income_object_tx]\<rparr>, TransactionAdded income_object_tx)
   \<and> postTransaction_v1 demo_env alice_state 0 income_object
       = (alice_state\<lparr>transactions := [income_object_tx]\<rparr>, TransactionAdded income_object_tx)
   \<and> type income_object_tx = Income
   \<and> sender income_object_tx = ''W1''
   \<and> receiver income_object_tx = ''external_receiver''
   \<and> receiver income_object_tx \<noteq> walletAddress alice_user"
  by (simp add: demo_defs handler_defs)

text \<open>
  C3, as the code has it. In the two servers that look the identifier up, the next
  identifier is 1 for an empty collection and one more than the highest identifier
  when that one is below \<open>2^53\<close>, and a committed transaction carries it.
  \<^verbatim>\<open>server-with-auth.js\<close> gives a transaction the value of the clock instead, and
  \<^verbatim>\<open>server.js\<close> the value of its counter, which every submission increments whatever
  the store holds.
\<close>

theorem next_identifier:
  "nextId [] = 1
   \<and> (txs \<noteq> [] \<and> Max (transactionId ` set txs) < 2 ^ 53
        \<longrightarrow> nextId txs = Max (transactionId ` set txs) + 1)
   \<and> ((h = postTransaction \<or> h = postTransaction_v1) \<and> h e s userId b = (s', TransactionAdded t)
        \<longrightarrow> transactionId t = nextId (transactions s))
   \<and> (postTransaction_with_auth e1 us atxs userId1 b1 = (atxs', AuthAdded a)
        \<longrightarrow> a_transactionId a = now e1)
   \<and> (postTransaction_legacy casts e2 ls lb = (ls', LegacyAdded l m)
        \<longrightarrow> (l_transactionId l = Some (mockNextId ls) \<or> l_id l = Some (mockNextId ls)))
   \<and> (mockNextId ls < 2 ^ 53
        \<longrightarrow> mockNextId (fst (postTransaction_legacy casts e2 ls lb)) = mockNextId ls + 1)"
proof -
  have c: "transactionId t = nextId (transactions s)"
    if "h = postTransaction \<or> h = postTransaction_v1" "h e s userId b = (s', TransactionAdded t)"
    using that postTransaction_cases[of e s userId b s' "TransactionAdded t"]
      postTransaction_v1_cases[of e s userId b s' "TransactionAdded t"] by auto
  have k: "mockNextId (fst (postTransaction_legacy casts e2 ls lb)) = mockNextId ls + 1"
    if "mockNextId ls < 2 ^ 53"
    using that legacy_counter[of casts e2 ls lb] by (simp add: js_succ_exact)
  from nextId_Nil nextId_below_limit[of txs] c with_auth_id[of e1 us atxs userId1 b1 atxs' a]
    legacy_id[of casts e2 ls lb ls' l m] k
  show ?thesis by blast
qed

theorem next_identifier_witness:
  "[paycheck_tx, rent_tx] \<noteq> []
   \<and> Max (transactionId ` set [paycheck_tx, rent_tx]) < 2 ^ 53
   \<and> nextId [paycheck_tx, rent_tx] = Max (transactionId ` set [paycheck_tx, rent_tx]) + 1
   \<and> nextId [paycheck_tx, rent_tx] = 3
   \<and> (postTransaction = postTransaction \<or> postTransaction = postTransaction_v1)
   \<and> postTransaction demo_env alice_state 0 paycheck
       = (alice_state\<lparr>transactions := [paycheck_tx]\<rparr>, TransactionAdded paycheck_tx)
   \<and> transactionId paycheck_tx = nextId (transactions alice_state)
   \<and> postTransaction_with_auth demo_env [alice_user] [] 0 paycheck
       = ([auth_paycheck], AuthAdded auth_paycheck)
   \<and> a_transactionId auth_paycheck = now demo_env
   \<and> postTransaction_legacy no_casts_fail demo_env restarted legacy_paycheck
       = (restarted\<lparr>mockNextId := 2, collection := [earlier_doc, legacy_added]\<rparr>,
          LegacyAdded legacy_added ''blockchain'')
   \<and> (l_transactionId legacy_added = Some (mockNextId restarted)
        \<or> l_id legacy_added = Some (mockNextId restarted))
   \<and> mockNextId restarted < 2 ^ 53
   \<and> mockNextId (fst (postTransaction_legacy no_casts_fail demo_env restarted legacy_paycheck))
       = mockNextId restarted + 1"
proof -
  have n: "[paycheck_tx, rent_tx] \<noteq> []" "Max (transactionId ` set [paycheck_tx, rent_tx]) < 2 ^ 53"
    "nextId [paycheck_tx, rent_tx] = 3"
    by (simp_all add: nextId_def js_succ_exact paycheck_tx_def rent_tx_def)
  have h: "postTransaction = postTransaction \<or> postTransaction = postTransaction_v1" by simp
  have p: "postTransaction demo_env alice_state 0 paycheck
       = (alice_state\<lparr>transactions := [paycheck_tx]\<rparr>, TransactionAdded paycheck_tx)"
    by (simp add: demo_defs handler_defs)
  have a: "postTransaction_with_auth demo_env [alice_user] [] 0 paycheck
       = ([auth_paycheck], AuthAdded auth_paycheck)"
    by (simp add: demo_defs handler_defs)
  have l: "postTransaction_legacy no_casts_fail demo_env restarted legacy_paycheck
       = (restarted\<lparr>mockNextId := 2, collection := [earlier_doc, legacy_added]\<rparr>,
          LegacyAdded legacy_added ''blockchain'')"
    by (simp add: demo_defs handler_defs)
  have m: "mockNextId restarted < 2 ^ 53" by (simp add: restarted_def)
  from next_identifier[where txs = "[paycheck_tx, rent_tx]" and h = postTransaction
      and e = demo_env and s = alice_state and userId = 0 and b = paycheck
      and s' = "alice_state\<lparr>transactions := [paycheck_tx]\<rparr>" and t = paycheck_tx
      and ?e1.0 = demo_env and us = "[alice_user]" and atxs = "[]" and ?userId1.0 = 0
      and ?b1.0 = paycheck and atxs' = "[auth_paycheck]" and a = auth_paycheck
      and casts = no_casts_fail
      and ?e2.0 = demo_env and ls = restarted and lb = legacy_paycheck
      and ls' = "restarted\<lparr>mockNextId := 2, collection := [earlier_doc, legacy_added]\<rparr>"
      and l = legacy_added and m = "''blockchain''"]
    n h p a l m
  show ?thesis by blast
qed

text \<open>
  C3 as stated fails in three places. On an empty collection \<^verbatim>\<open>server-with-auth.js\<close>
  assigns the clock value and not 1. A process of \<^verbatim>\<open>server.js\<close> started on a
  collection whose highest identifier is 7 assigns 1 and not 8. And where the
  identifier is looked up, a collection whose highest identifier is \<open>2^53\<close> gets
  \<open>2^53\<close> as the next one, since the sum \<open>2^53 + 1\<close> is not a Number and rounds
  back.
\<close>

theorem identifier_from_clock_and_counter:
  "postTransaction_with_auth demo_env [alice_user] [] 0 paycheck = ([auth_paycheck], AuthAdded auth_paycheck)
   \<and> a_transactionId auth_paycheck = 1700000000000
   \<and> nextId [] = 1
   \<and> map l_transactionId (collection restarted) = [Some 7]
   \<and> map l_transactionId
        (collection (fst (postTransaction_legacy no_casts_fail demo_env restarted legacy_paycheck)))
       = [Some 7, Some 1]
   \<and> map transactionId at_the_limit = [9007199254740992]
   \<and> nextId at_the_limit = 9007199254740992
   \<and> nextId at_the_limit \<noteq> Max (transactionId ` set at_the_limit) + 1"
  by (simp add: demo_defs handler_defs js_succ_limit_numeral)

text \<open>
  C4. In one process lifetime, which starts with an empty set of assigned wallets, the
  users registered have pairwise distinct wallet addresses, and so have all the users
  added to the store, the registered ones among them; the users the store had before
  stay in front. When no signing of a token fails, the users added are the users
  registered. No more users are registered or added than the pool has addresses, and
  once that many are registered a further registration that passes the checks before
  the draw fails with the message of the exhausted pool, leaving the state as it is. No
  request, from any state, removes a wallet from the assigned set.
\<close>

theorem wallets_exclusive:
  assumes "assignedWallets s = {}"
  shows "distinct (map walletAddress (registered (snd (run pool s reqs))))
       \<and> take (length (users s)) (users (fst (run pool s reqs))) = users s
       \<and> distinct (map walletAddress (drop (length (users s)) (users (fst (run pool s reqs)))))
       \<and> set (registered (snd (run pool s reqs)))
            \<subseteq> set (drop (length (users s)) (users (fst (run pool s reqs))))
       \<and> ((\<forall>er \<in> set reqs. jwt_error (fst er) = None)
            \<longrightarrow> users (fst (run pool s reqs)) = users s @ registered (snd (run pool s reqs)))
       \<and> length (registered (snd (run pool s reqs))) \<le> card (set pool)
       \<and> length (users (fst (run pool s reqs))) - length (users s) \<le> card (set pool)
       \<and> (length (registered (snd (run pool s reqs))) = card (set pool)
            \<and> \<not> falsy_str (reg_username b) \<and> \<not> falsy_str (reg_email b)
            \<and> \<not> falsy (reg_password b) \<and> dbConnected e
            \<and> find (\<lambda>u. email u = the (reg_email b) \<or> username u = the (reg_username b))
                 (users (fst (run pool s reqs))) = None
          \<longrightarrow> register pool e (fst (run pool s reqs)) b
              = (fst (run pool s reqs), Fail 500 (Text ''No more wallets available'')))
       \<and> assignedWallets t \<subseteq> assignedWallets (fst (handle pool e' t rq))"
proof -
  obtain s' reps where r: "run pool s reqs = (s', reps)" by (cases "run pool s reqs")
  let ?ws = "map walletAddress (registered reps)"
  from run_wallets[OF r] assms obtain added where w:
    "users s' = users s @ added" "distinct (map walletAddress added)"
    "walletAddress ` set added \<subseteq> assignedWallets s'" "assignedWallets s' \<subseteq> set pool"
    "set (registered reps) \<subseteq> set added" "distinct ?ws"
    "(\<forall>er \<in> set reqs. jwt_error (fst er) = None) \<longrightarrow> registered reps = added"
    by auto
  have dr: "drop (length (users s)) (users s') = added" "take (length (users s)) (users s') = users s"
    using w(1) by simp_all
  have sub: "set ?ws \<subseteq> assignedWallets s'" using w(3,5) by auto
  have le: "length (registered reps) \<le> card (set pool)"
  proof -
    have "card (set ?ws) \<le> card (set pool)" using sub w(4) by (intro card_mono) auto
    moreover have "card (set ?ws) = length ?ws" using w(6) by (rule distinct_card)
    ultimately show ?thesis by simp
  qed
  have le': "length (users s') - length (users s) \<le> card (set pool)"
  proof -
    have "card (set (map walletAddress added)) \<le> card (set pool)"
      using w(3,4) by (intro card_mono) auto
    moreover have "card (set (map walletAddress added)) = length (map walletAddress added)"
      using w(2) by (rule distinct_card)
    ultimately show ?thesis using w(1) by simp
  qed
  have ex: "register pool e s' b = (s', Fail 500 (Text ''No more wallets available''))"
    if "length (registered reps) = card (set pool)"
      "\<not> falsy_str (reg_username b)" "\<not> falsy_str (reg_email b)" "\<not> falsy (reg_password b)"
      "dbConnected e"
      "find (\<lambda>u. email u = the (reg_email b) \<or> username u = the (reg_username b)) (users s') = None"
  proof -
    have "set pool \<subseteq> assignedWallets s'"
      using full_pool[of ?ws "assignedWallets s'" pool] w(6) sub w(4) that(1) by simp
    from register_exhausted[OF this that(2-6)] show ?thesis .
  qed
  obtain t' r' where h: "handle pool e' t rq = (t', r')" by (cases "handle pool e' t rq")
  from handle_wallets[OF h] have mono: "assignedWallets t \<subseteq> assignedWallets t'" by auto
  have all: "(\<forall>er \<in> set reqs. jwt_error (fst er) = None) \<longrightarrow> users s' = users s @ registered reps"
    using w(1,7) by simp
  from w(2,5,6) dr le le' ex mono all r h show ?thesis by simp
qed

theorem wallets_exclusive_witness:
  "assignedWallets start = {}
   \<and> map (\<lambda>er. jwt_error (fst er)) demo_registrations = [None, None]
   \<and> users (fst (run demo_pool start demo_registrations))
       = users start @ registered (snd (run demo_pool start demo_registrations))
   \<and> length (registered (snd (run demo_pool start demo_registrations))) = card (set demo_pool)
   \<and> \<not> falsy_str (reg_username carol) \<and> \<not> falsy_str (reg_email carol)
   \<and> \<not> falsy (reg_password carol) \<and> dbConnected demo_env
   \<and> find (\<lambda>u. email u = the (reg_email carol) \<or> username u = the (reg_username carol))
        (users (fst (run demo_pool start demo_registrations))) = None
   \<and> distinct (map walletAddress (registered (snd (run demo_pool start demo_registrations))))
   \<and> register demo_pool demo_env (fst (run demo_pool start demo_registrations)) carol
       = (fst (run demo_pool start demo_registrations), Fail 500 (Text ''No more wallets available''))
   \<and> assignedWallets alice_state
       \<subseteq> assignedWallets (fst (handle demo_pool demo_env alice_state (PostRegister bob)))"
proof -
  have h: "assignedWallets start = {}" by (simp add: start_def)
  have j: "\<forall>er \<in> set demo_registrations. jwt_error (fst er) = None"
    by (simp add: demo_registrations_def demo_env_def)
  have n: "length (registered (snd (run demo_pool start demo_registrations))) = card (set demo_pool)"
    by (simp add: demo_defs handler_defs)
  have v: "\<not> falsy_str (reg_username carol) \<and> \<not> falsy_str (reg_email carol)
      \<and> \<not> falsy (reg_password carol) \<and> dbConnected demo_env"
    by (simp add: demo_defs falsy_str_def falsy_def)
  have f: "find (\<lambda>u. email u = the (reg_email carol) \<or> username u = the (reg_username carol))
        (users (fst (run demo_pool start demo_registrations))) = None"
    by (simp add: demo_defs handler_defs)
  have j': "map (\<lambda>er. jwt_error (fst er)) demo_registrations = [None, None]"
    by (simp add: demo_registrations_def demo_env_def)
  from wallets_exclusive[OF h, of demo_pool demo_registrations carol demo_env alice_state
      demo_env "PostRegister bob"] h j j' n v f
  show ?thesis by blast
qed

text \<open>
  C5. The wallet assignment returns the first address of the pool, in the order of its
  definition, that is not in the assigned set, and adds it to the set; when every
  address is in the set it throws. With a pool of two different addresses and nothing
  assigned, alice is registered with the first, bob with the second, and the
  registration of carol fails with the message of the exhausted pool.
\<close>

theorem first_free_wallet:
  "getAvailableWalletFrom pool assigned =
     (case find (\<lambda>w. w \<notin> assigned) pool of
        None \<Rightarrow> Inl ''No more wallets available''
      | Some w \<Rightarrow> Inr (w, insert w assigned))
   \<and> (W1 \<noteq> W2 \<longrightarrow>
        (\<exists>t1 u1 t2 u2.
           snd (run [W1, W2] start
                 [(demo_env, PostRegister alice), (demo_env, PostRegister bob),
                  (demo_env, PostRegister carol)])
             = [Registered t1 u1, Registered t2 u2, Fail 500 (Text ''No more wallets available'')]
           \<and> username u1 = ''alice'' \<and> walletAddress u1 = W1
           \<and> username u2 = ''bob'' \<and> walletAddress u2 = W2))"
  by (simp add: getAvailableWalletFrom_find demo_defs handler_defs)

theorem first_free_wallet_witness:
  "''W1'' \<noteq> ''W2''
   \<and> getAvailableWalletFrom demo_pool {''W1''} = Inr (''W2'', {''W2'', ''W1''})
   \<and> (\<exists>t1 u1 t2 u2.
         snd (run [''W1'', ''W2''] start
               [(demo_env, PostRegister alice), (demo_env, PostRegister bob),
                (demo_env, PostRegister carol)])
           = [Registered t1 u1, Registered t2 u2, Fail 500 (Text ''No more wallets available'')]
         \<and> username u1 = ''alice'' \<and> walletAddress u1 = ''W1''
         \<and> username u2 = ''bob'' \<and> walletAddress u2 = ''W2'')"
proof -
  have h: "''W1'' \<noteq> ''W2''" by simp
  from first_free_wallet[of demo_pool "{''W1''}" "''W1''" "''W2''"] h
  show ?thesis by (simp add: demo_pool_def)
qed

text \<open>
  C6, as the code has it. For every list of transactions, the empty one included, the
  balance of the dashboard summary is its total income minus its total expenses, in
  both servers with a dashboard. The totals of the category buckets add up to total
  income plus total expenses when the amounts are whole numbers whose absolute values
  add up to \<open>2^53\<close> at most, so that no addition rounds; the same holds for the buckets
  by month of the earlier server.
\<close>

theorem summary_totals_agree:
  "balance (summarize T) = js_sub (totalIncome (summarize T)) (totalExpenses (summarize T))
   \<and> balance (summarize_v1 month T)
       = js_sub (totalIncome (summarize_v1 month T)) (totalExpenses (summarize_v1 month T))
   \<and> summarize [] =
       \<lparr>totalIncome = Fin 0, totalExpenses = Fin 0, balance = Fin 0, transactionCount = 0,
        byCategory = []\<rparr>
   \<and> (exact_amounts T \<longrightarrow>
        sum_totals (byCategory (summarize T))
          = js_add (totalIncome (summarize T)) (totalExpenses (summarize T))
        \<and> sum_totals (byCategory (summarize_v1 month T))
          = js_add (totalIncome (summarize_v1 month T)) (totalExpenses (summarize_v1 month T))
        \<and> sum_totals (byMonth (summarize_v1 month T))
          = js_add (totalIncome (summarize_v1 month T)) (totalExpenses (summarize_v1 month T)))"
proof -
  have a: "sum_totals (byCategory (summarize T))
       = js_add (totalIncome (summarize T)) (totalExpenses (summarize T))" if "exact_amounts T"
    using that by (simp add: summarize_def Let_def sum_totals_categoryData totals_exact)
  have b: "sum_totals (byCategory (summarize_v1 month T))
       = js_add (totalIncome (summarize_v1 month T)) (totalExpenses (summarize_v1 month T))"
    if "exact_amounts T"
    using that by (simp add: summarize_v1_def Let_def sum_totals_categoryData totals_exact)
  have m: "sum_totals (byMonth (summarize_v1 month T))
       = js_add (totalIncome (summarize_v1 month T)) (totalExpenses (summarize_v1 month T))"
    if "exact_amounts T"
    using that by (simp add: summarize_v1_def Let_def sum_totals_monthlyData totals_exact)
  have c: "balance (summarize T) = js_sub (totalIncome (summarize T)) (totalExpenses (summarize T))"
    by (simp add: summarize_def Let_def)
  have d: "balance (summarize_v1 month T)
       = js_sub (totalIncome (summarize_v1 month T)) (totalExpenses (summarize_v1 month T))"
    by (simp add: summarize_v1_def Let_def)
  have e: "summarize [] =
       \<lparr>totalIncome = Fin 0, totalExpenses = Fin 0, balance = Fin 0, transactionCount = 0,
        byCategory = []\<rparr>"
    by (simp add: summary_defs round64_def Let_def)
  from a b m c d e show ?thesis by blast
qed

theorem summary_totals_agree_witness:
  "exact_amounts ledger
   \<and> map amount ledger = [Fin 1000, Fin 400, Fin 250]
   \<and> summarize ledger =
       \<lparr>totalIncome = Fin 1250, totalExpenses = Fin 400, balance = Fin 850,
        transactionCount = 3,
        byCategory =
          [(Salary, \<lparr>income = Fin 1000, expense = Fin 0, total = Fin 1000\<rparr>),
           (Rent, \<lparr>income = Fin 0, expense = Fin 400, total = Fin 400\<rparr>),
           (Other, \<lparr>income = Fin 250, expense = Fin 0, total = Fin 250\<rparr>)]\<rparr>
   \<and> byMonth (summarize_v1 month_of ledger) =
       [(''2023-11'', \<lparr>income = Fin 1000, expense = Fin 400, total = Fin 1400\<rparr>),
        (''2023-12'', \<lparr>income = Fin 250, expense = Fin 0, total = Fin 250\<rparr>)]
   \<and> sum_totals (byCategory (summarize ledger))
       = js_add (totalIncome (summarize ledger)) (totalExpenses (summarize ledger))
   \<and> sum_totals (byCategory (summarize_v1 month_of ledger))
       = js_add (totalIncome (summarize_v1 month_of ledger))
                (totalExpenses (summarize_v1 month_of ledger))
   \<and> sum_totals (byMonth (summarize_v1 month_of ledger))
       = js_add (totalIncome (summarize_v1 month_of ledger))
                (totalExpenses (summarize_v1 month_of ledger))"
proof -
  have x: "exact_amounts ledger" by (simp add: exact_amounts_def amount_defs)
  have a: "map amount ledger = [Fin 1000, Fin 400, Fin 250]" by (simp add: amount_defs)
  have s: "summarize ledger =
       \<lparr>totalIncome = Fin 1250, totalExpenses = Fin 400, balance = Fin 850,
        transactionCount = 3,
        byCategory =
          [(Salary, \<lparr>income = Fin 1000, expense = Fin 0, total = Fin 1000\<rparr>),
           (Rent, \<lparr>income = Fin 0, expense = Fin 400, total = Fin 400\<rparr>),
           (Other, \<lparr>income = Fin 250, expense = Fin 0, total = Fin 250\<rparr>)]\<rparr>"
    by (simp add: amount_defs summary_defs round64_eval)
  have m: "byMonth (summarize_v1 month_of ledger) =
       [(''2023-11'', \<lparr>income = Fin 1000, expense = Fin 400, total = Fin 1400\<rparr>),
        (''2023-12'', \<lparr>income = Fin 250, expense = Fin 0, total = Fin 250\<rparr>)]"
    by (simp add: amount_defs summary_defs round64_eval)
  from summary_totals_agree[of ledger month_of] x a s m show ?thesis by blast
qed

text \<open>
  C6 as stated fails where the additions round. Three transactions of one category
  with the amounts 0.1 (income), 0.1 (expense) and 1.1 (income): the bucket adds them
  in this order and its total is the Number 1.3, while total income plus total
  expenses is (0.1 + 1.1) + 0.1, the Number 1.3000000000000003; the sum of the two
  totals without rounding is not the bucket total either.
\<close>

theorem bucket_totals_differ:
  "map type fractions = [Income, Expense, Income]
   \<and> map category fractions = [Salary, Salary, Salary]
   \<and> map amount fractions = [round64 (1 / 10), round64 (1 / 10), round64 (11 / 10)]
   \<and> sum_totals (byCategory (summarize fractions))
       = Fin (5854679515581645 / 4503599627370496)
   \<and> js_add (totalIncome (summarize fractions)) (totalExpenses (summarize fractions))
       = Fin (2927339757790823 / 2251799813685248)
   \<and> sum_totals (byCategory (summarize fractions))
       \<noteq> js_add (totalIncome (summarize fractions)) (totalExpenses (summarize fractions))
   \<and> totalIncome (summarize fractions) = Fin (1351079888211149 / 1125899906842624)
   \<and> totalExpenses (summarize fractions) = Fin (3602879701896397 / 36028797018963968)
   \<and> (1351079888211149 / 1125899906842624 + 3602879701896397 / 36028797018963968 :: rat)
       \<noteq> 5854679515581645 / 4503599627370496
   \<and> sum_totals (byCategory (summarize_v1 month_of fractions))
       \<noteq> js_add (totalIncome (summarize_v1 month_of fractions))
                (totalExpenses (summarize_v1 month_of fractions))"
  by (simp add: amount_defs summary_defs round64_eval)

text \<open>
  C7, as the code has it. A request that fails leaves the transactions as they were,
  removes no wallet from the assigned set and no user from the store. It leaves the
  whole state as it was when it is not a registration, and when it is a registration
  that a check before the hashing of the password rejects: a missing field, no
  connection, an existing user, an exhausted pool. The submission route of the earlier
  server leaves the state alone whenever it fails.
\<close>

theorem failure_leaves_records:
  "(is_failure (snd (handle pool e s rq)) \<longrightarrow>
      transactions (fst (handle pool e s rq)) = transactions s
      \<and> assignedWallets s \<subseteq> assignedWallets (fst (handle pool e s rq))
      \<and> take (length (users s)) (users (fst (handle pool e s rq))) = users s
      \<and> (\<not> is_registration rq \<longrightarrow> fst (handle pool e s rq) = s))
   \<and> (rejected_before_draw pool e s rb \<longrightarrow>
        is_failure (snd (handle pool e s (PostRegister rb)))
        \<and> fst (handle pool e s (PostRegister rb)) = s)
   \<and> (is_failure (snd (postTransaction_v1 e1 s1 userId b)) \<longrightarrow>
        fst (postTransaction_v1 e1 s1 userId b) = s1)"
proof -
  obtain s' r where h: "handle pool e s rq = (s', r)" by (cases "handle pool e s rq")
  have a: "transactions s' = transactions s \<and> assignedWallets s \<subseteq> assignedWallets s'
       \<and> take (length (users s)) (users s') = users s
       \<and> (\<not> is_registration rq \<longrightarrow> s' = s)"
    if f: "is_failure r"
  proof (cases rq)
    case (PostRegister b')
    with h register_failure[of pool e s b' s' r] f show ?thesis by simp
  next
    case (PostLogin lb)
    with h login_state[of e s lb s' r] show ?thesis by simp
  next
    case (PostTransaction uid tb)
    with h postTransaction_failure[of e s uid tb s' r] f show ?thesis by simp
  next
    case (GetDashboardSummary uid)
    with h getDashboardSummary_state[of e s uid s' r] show ?thesis by simp
  qed
  have c: "is_failure (snd (handle pool e s (PostRegister rb)))
        \<and> fst (handle pool e s (PostRegister rb)) = s"
    if "rejected_before_draw pool e s rb"
    using register_rejected[OF that] by auto
  obtain s2 r2 where h1: "postTransaction_v1 e1 s1 userId b = (s2, r2)"
    by (cases "postTransaction_v1 e1 s1 userId b")
  from postTransaction_v1_failure[OF h1] have b: "is_failure r2 \<longrightarrow> s2 = s1" by blast
  from a b c h h1 show ?thesis by simp
qed

theorem failure_leaves_records_witness:
  "is_failure (snd (handle demo_pool write_fails alice_state (PostTransaction 0 paycheck)))
   \<and> \<not> is_registration (PostTransaction 0 paycheck)
   \<and> fst (handle demo_pool write_fails alice_state (PostTransaction 0 paycheck)) = alice_state
   \<and> rejected_before_draw demo_pool offline alice_state bob
   \<and> is_failure (snd (handle demo_pool offline alice_state (PostRegister bob)))
   \<and> fst (handle demo_pool offline alice_state (PostRegister bob)) = alice_state
   \<and> is_failure (snd (postTransaction_v1 offline alice_state 0 paycheck))
   \<and> fst (postTransaction_v1 offline alice_state 0 paycheck) = alice_state"
proof -
  have f: "is_failure (snd (handle demo_pool write_fails alice_state (PostTransaction 0 paycheck)))"
    "\<not> is_registration (PostTransaction 0 paycheck)"
    "rejected_before_draw demo_pool offline alice_state bob"
    "is_failure (snd (postTransaction_v1 offline alice_state 0 paycheck))"
    by (simp_all add: demo_defs handler_defs rejected_before_draw_def)
  from failure_leaves_records[of demo_pool write_fails alice_state "PostTransaction 0 paycheck"
      bob offline alice_state 0 paycheck]
    failure_leaves_records[of demo_pool offline alice_state "PostRegister bob"
      bob offline alice_state 0 paycheck] f
  show ?thesis by blast
qed

text \<open>
  C7 as stated fails for a registration that fails after the wallet was drawn. When the
  write is rejected the reply is an error and the wallet stays in the assigned set.
  When \<^verbatim>\<open>jwt.sign\<close> throws, the reply is an error as well, and both the wallet and the
  user, stored by then, stay. When the password is a number, \<^verbatim>\<open>bcrypt.hash\<close> rejects
  it, after the draw, and the wallet stays.
\<close>

theorem failed_registration_keeps_wallet:
  "handle demo_pool write_fails start (PostRegister alice)
     = (start\<lparr>assignedWallets := {''W1''}\<rparr>, Fail 500 (StoreMessage WriteFailed))
   \<and> is_failure (snd (handle demo_pool write_fails start (PostRegister alice)))
   \<and> assignedWallets (fst (handle demo_pool write_fails start (PostRegister alice)))
       \<noteq> assignedWallets start
   \<and> handle demo_pool no_secret alice_state (PostRegister bob)
     = (\<lparr>users = [alice_user, bob_user], transactions = [], assignedWallets = {''W2'', ''W1''}\<rparr>,
        Fail 500 (Text ''secretOrPrivateKey must have a value''))
   \<and> users (fst (handle demo_pool no_secret alice_state (PostRegister bob))) \<noteq> users alice_state
   \<and> handle demo_pool demo_env alice_state (PostRegister bob_numeric)
     = (alice_state\<lparr>assignedWallets := {''W2'', ''W1''}\<rparr>,
        Fail 500 (Text ''Illegal arguments: number, number''))"
  by (simp add: demo_defs handler_defs)




text \<open>
  C9 at two attempts with the number 12345 as password, against a store whose only user
  has the email \<^verbatim>\<open>a@x.com\<close>: the bodies \<^verbatim>\<open>{"email": "n@x.com", "password": 12345}\<close> and
  \<^verbatim>\<open>{"email": "a@x.com", "password": 12345}\<close>. The first matches no user and gets status
  400 with the message \<^verbatim>\<open>Invalid email or password\<close>. The second matches a user;
  \<^verbatim>\<open>bcrypt.compare\<close> rejects a password that is not a string, and the reply is
  status 500 with its message. The replies differ, so they tell whether the email is
  registered, where the two checks written in the handler answer alike.
\<close>

theorem login_failures_distinguishable:
  "find (\<lambda>u. email u = the (login_email nobody_number)) (users alice_state) = None
   \<and> find (\<lambda>u. email u = the (login_email number_password)) (users alice_state) = Some alice_user
   \<and> login_password nobody_number = JNum (Fin 12345)
   \<and> login_password number_password = JNum (Fin 12345)
   \<and> login demo_env alice_state nobody_number
       = (alice_state, Fail 400 (Text ''Invalid email or password''))
   \<and> login demo_env alice_state number_password
       = (alice_state, Fail 500 (Text ''Illegal arguments: number, string''))
   \<and> snd (login demo_env alice_state nobody_number)
       \<noteq> snd (login demo_env alice_state number_password)
   \<and> status_code (snd (login demo_env alice_state nobody_number))
       \<noteq> status_code (snd (login demo_env alice_state number_password))"
  by (simp add: demo_defs handler_defs)

text \<open>
  C10, as the code has it. A submission whose amount is the number 0 or whose
  description is the empty string gets the reply for a missing field, in both servers
  that sequence identifiers, and nothing is written: the check for required fields
  takes every falsy value as absent.
\<close>

theorem zero_amount_rejected_as_number:
  assumes "body_amount b = JNum (Fin 0) \<or> body_description b = JStr []"
  shows "postTransaction e s userId b
           = (s, Fail 400 (Text ''Description, amount, and type are required''))
       \<and> postTransaction_v1 e s userId b
           = (s, Fail 400 (Text ''Description, amount, and type are required''))
       \<and> transactions (fst (postTransaction e s userId b)) = transactions s
       \<and> transactions (fst (postTransaction_v1 e s userId b)) = transactions s"
proof -
  from assms have "falsy (body_description b) \<or> falsy (body_amount b) \<or> falsy (body_type b)"
    by (auto simp: falsy_def)
  from required_fields[OF this] show ?thesis by simp
qed

theorem zero_amount_rejected_as_number_witness:
  "body_amount zero_number = JNum (Fin 0)
   \<and> body_description no_description = JStr []
   \<and> postTransaction demo_env alice_state 0 zero_number
       = (alice_state, Fail 400 (Text ''Description, amount, and type are required''))
   \<and> postTransaction_v1 demo_env alice_state 0 zero_number
       = (alice_state, Fail 400 (Text ''Description, amount, and type are required''))
   \<and> postTransaction demo_env alice_state 0 no_description
       = (alice_state, Fail 400 (Text ''Description, amount, and type are required''))"
proof -
  have h: "body_amount zero_number = JNum (Fin 0)" "body_description no_description = JStr []"
    by (simp_all add: demo_defs)
  from zero_amount_rejected_as_number[of zero_number demo_env alice_state 0]
    zero_amount_rejected_as_number[of no_description demo_env alice_state 0] h
  show ?thesis by blast
qed

text \<open>
  C10 as stated fails in its last part: a transaction with the amount 0 is created
  through the same route. The body with the amount \<^verbatim>\<open>"0"\<close> passes the check for
  required fields, \<^verbatim>\<open>parseFloat\<close> reads the text as 0, and the transaction is stored with
  the amount 0; so is the one for the body with the amount \<^verbatim>\<open>[0]\<close>.
\<close>

theorem zero_amount_created_from_text:
  "body_amount zero_text = JStr ''0''
   \<and> postTransaction demo_env alice_state 0 zero_text
     = (alice_state\<lparr>transactions := [zero_tx]\<rparr>, TransactionAdded zero_tx)
   \<and> postTransaction_v1 demo_env alice_state 0 zero_text
     = (alice_state\<lparr>transactions := [zero_tx]\<rparr>, TransactionAdded zero_tx)
   \<and> body_amount zero_array = JArr [JNum (Fin 0)]
   \<and> postTransaction demo_env alice_state 0 zero_array
     = (alice_state\<lparr>transactions := [zero_tx]\<rparr>, TransactionAdded zero_tx)
   \<and> amount zero_tx = Fin 0"
  by (simp add: demo_defs handler_defs parse_defs number_text_def nat_text.simps digit_char_def
      round64_def)

end
